theory Spec2Isabelle
  imports Complex_Main
begin

section \<open>Numbers, characters and strings of the host language\<close>

text \<open>
  The bookkeeper (\<^verbatim>\<open>src/api/webhook.js\<close>) computes with JavaScript numbers. Amounts are
  modelled as exact rationals; the values \<^verbatim>\<open>NaN\<close> and \<^verbatim>\<open>Infinity\<close> that
  \<^verbatim>\<open>parseFloat\<close> can return are kept as constructors of \<open>jsnum\<close>. Arithmetic is exact: the
  rounding error and the overflow of binary64 are not part of the model.
  Strings are lists of code units below 256 (Latin-1).
\<close>

datatype jsnum = NaN | Fin rat | PosInf | NegInf

datatype jsval = JNull | JBool bool | JNum rat | JStr string

fun jadd :: "jsnum \<Rightarrow> jsnum \<Rightarrow> jsnum" where
  "jadd (Fin a) (Fin b) = Fin (a + b)"
| "jadd NaN _ = NaN"
| "jadd _ NaN = NaN"
| "jadd PosInf NegInf = NaN"
| "jadd NegInf PosInf = NaN"
| "jadd PosInf _ = PosInf"
| "jadd _ PosInf = PosInf"
| "jadd NegInf _ = NegInf"
| "jadd _ NegInf = NegInf"

fun jle :: "jsnum \<Rightarrow> jsnum \<Rightarrow> bool" where
  "jle (Fin a) (Fin b) = (a \<le> b)"
| "jle NaN _ = False"
| "jle _ NaN = False"
| "jle NegInf _ = True"
| "jle _ PosInf = True"
| "jle _ _ = False"

fun jneg :: "jsnum \<Rightarrow> jsnum" where
  "jneg NaN = NaN"
| "jneg (Fin r) = Fin (- r)"
| "jneg PosInf = NegInf"
| "jneg NegInf = PosInf"

text \<open>\<^verbatim>\<open>x || d\<close> on a number: \<^verbatim>\<open>NaN\<close> and \<^verbatim>\<open>0\<close> are falsy.\<close>

definition falsyNum :: "jsnum \<Rightarrow> bool" where
  "falsyNum x = (x = NaN \<or> x = Fin 0)"

definition orZero :: "jsnum \<Rightarrow> jsnum" where
  "orZero x = (if falsyNum x then Fin 0 else x)"

text \<open>\<^verbatim>\<open>Math.round\<close> rounds to the nearest integer, halves towards plus infinity.\<close>

definition jsRound :: "rat \<Rightarrow> rat" where
  "jsRound x = of_int \<lfloor>x + 1 / 2\<rfloor>"

fun jsRoundNum :: "jsnum \<Rightarrow> jsnum" where
  "jsRoundNum (Fin r) = Fin (jsRound r)"
| "jsRoundNum x = x"

fun jsScale :: "jsnum \<Rightarrow> rat \<Rightarrow> jsnum" where
  "jsScale (Fin r) k = Fin (r * k)"
| "jsScale x k = x"

definition code :: "char \<Rightarrow> nat" where
  "code c = of_char c"

definition isSpace :: "char \<Rightarrow> bool" where
  "isSpace c = (code c \<in> {9, 10, 11, 12, 13, 32, 160})"

definition isDigit :: "char \<Rightarrow> bool" where
  "isDigit c = (48 \<le> code c \<and> code c \<le> 57)"

definition isUpperAZ :: "char \<Rightarrow> bool" where
  "isUpperAZ c = (65 \<le> code c \<and> code c \<le> 90)"

definition isLowerAZ :: "char \<Rightarrow> bool" where
  "isLowerAZ c = (97 \<le> code c \<and> code c \<le> 122)"

definition isWordChar :: "char \<Rightarrow> bool" where
  "isWordChar c = (isUpperAZ c \<or> isLowerAZ c \<or> isDigit c \<or> c = CHR ''_'')"

definition lowerAZ :: "char \<Rightarrow> char" where
  "lowerAZ c = (if isUpperAZ c then char_of (code c + 32) else c)"

definition upperAZ :: "char \<Rightarrow> char" where
  "upperAZ c = (if isLowerAZ c then char_of (code c - 32) else c)"

definition toLowerChar :: "char \<Rightarrow> char" where
  "toLowerChar c =
     (if isUpperAZ c \<or> (192 \<le> code c \<and> code c \<le> 222 \<and> code c \<noteq> 215)
      then char_of (code c + 32) else c)"

definition toLowerCase :: "string \<Rightarrow> string" where
  "toLowerCase s = map toLowerChar s"

definition trimStart :: "string \<Rightarrow> string" where
  "trimStart s = dropWhile isSpace s"

definition trim :: "string \<Rightarrow> string" where
  "trim s = rev (dropWhile isSpace (rev (dropWhile isSpace s)))"

definition startsWith :: "string \<Rightarrow> string \<Rightarrow> bool" where
  "startsWith p s = (take (length p) s = p)"

subsection \<open>parseFloat and parseInt\<close>

definition digitsVal :: "string \<Rightarrow> nat" where
  "digitsVal ds = foldl (\<lambda>a c. 10 * a + (code c - 48)) 0 ds"

definition scale10 :: "rat \<Rightarrow> int \<Rightarrow> rat" where
  "scale10 m e = (if 0 \<le> e then m * 10 ^ nat e else m / 10 ^ nat (- e))"

definition exponentPart :: "string \<Rightarrow> int" where
  "exponentPart s =
     (case s of
        [] \<Rightarrow> 0
      | c # cs \<Rightarrow>
          if c = CHR ''e'' \<or> c = CHR ''E'' then
            (case cs of
               [] \<Rightarrow> 0
             | d # ds \<Rightarrow>
                 if d = CHR ''-'' then - int (digitsVal (takeWhile isDigit ds))
                 else if d = CHR ''+'' then int (digitsVal (takeWhile isDigit ds))
                 else int (digitsVal (takeWhile isDigit cs)))
          else 0)"

text \<open>
  The longest prefix that is an unsigned decimal literal: \<^verbatim>\<open>Infinity\<close>, or digits with an
  optional fraction and an optional exponent; no such prefix gives \<^verbatim>\<open>NaN\<close>.
\<close>

definition unsignedLiteral :: "string \<Rightarrow> jsnum" where
  "unsignedLiteral s =
     (if startsWith ''Infinity'' s then PosInf
      else
        let ip = takeWhile isDigit s;
            r1 = dropWhile isDigit s;
            dot = (r1 \<noteq> [] \<and> hd r1 = CHR ''.'');
            fp = (if dot then takeWhile isDigit (tl r1) else []);
            r2 = (if dot then dropWhile isDigit (tl r1) else r1)
        in if ip = [] \<and> fp = [] then NaN
           else Fin (scale10 (of_nat (digitsVal ip) + of_nat (digitsVal fp) / 10 ^ length fp)
                       (exponentPart r2)))"

definition parseFloatStr :: "string \<Rightarrow> jsnum" where
  "parseFloatStr s0 =
     (case trimStart s0 of
        [] \<Rightarrow> NaN
      | c # cs \<Rightarrow>
          if c = CHR ''-'' then jneg (unsignedLiteral cs)
          else if c = CHR ''+'' then unsignedLiteral cs
          else unsignedLiteral (c # cs))"

definition parseFloat :: "jsval \<Rightarrow> jsnum" where
  "parseFloat v = (case v of JNum r \<Rightarrow> Fin r | JStr s \<Rightarrow> parseFloatStr s | _ \<Rightarrow> NaN)"

definition isHexDigit :: "char \<Rightarrow> bool" where
  "isHexDigit c = (isDigit c \<or> (97 \<le> code c \<and> code c \<le> 102) \<or> (65 \<le> code c \<and> code c \<le> 70))"

definition hexVal :: "string \<Rightarrow> nat" where
  "hexVal ds = foldl (\<lambda>a c. 16 * a +
      (if isDigit c then code c - 48 else if 97 \<le> code c then code c - 87 else code c - 55)) 0 ds"

text \<open>
  \<^verbatim>\<open>parseInt(s, 10)\<close> (\<open>radix10\<close>) and \<^verbatim>\<open>parseInt(s)\<close>, which also reads a \<^verbatim>\<open>0x\<close>
  prefix; \<open>None\<close> is \<^verbatim>\<open>NaN\<close>.
\<close>

definition unsignedInt :: "bool \<Rightarrow> string \<Rightarrow> int option" where
  "unsignedInt radix10 s =
     (if \<not> radix10 \<and> (startsWith ''0x'' s \<or> startsWith ''0X'' s) then
        (if takeWhile isHexDigit (drop 2 s) = [] then None
         else Some (int (hexVal (takeWhile isHexDigit (drop 2 s)))))
      else if takeWhile isDigit s = [] then None
      else Some (int (digitsVal (takeWhile isDigit s))))"

definition parseIntStr :: "bool \<Rightarrow> string \<Rightarrow> int option" where
  "parseIntStr radix10 s0 =
     (case trimStart s0 of
        [] \<Rightarrow> None
      | c # cs \<Rightarrow>
          if c = CHR ''-'' then map_option uminus (unsignedInt radix10 cs)
          else if c = CHR ''+'' then unsignedInt radix10 cs
          else unsignedInt radix10 (c # cs))"

text \<open>
  A number argument is first printed; for a number that prints in plain decimal notation
  (magnitude from \<open>10\<^sup>-\<^sup>6\<close> up to \<open>10\<^sup>2\<^sup>1\<close>, or zero) the digits before the
  point are its integer part.
\<close>

definition parseInt :: "bool \<Rightarrow> jsval \<Rightarrow> int option" where
  "parseInt radix10 v =
     (case v of
        JNum r \<Rightarrow> Some (if 0 \<le> r then \<lfloor>r\<rfloor> else - \<lfloor>- r\<rfloor>)
      | JStr s \<Rightarrow> parseIntStr radix10 s
      | _ \<Rightarrow> None)"

definition parseNumberOrNull :: "jsval \<Rightarrow> rat option" where
  "parseNumberOrNull v = (case parseFloat v of Fin n \<Rightarrow> Some n | _ \<Rightarrow> None)"

text \<open>\<^verbatim>\<open>capitalize\<close>: every word character that starts a word is upper-cased.\<close>

fun capitalizeFrom :: "char option \<Rightarrow> string \<Rightarrow> string" where
  "capitalizeFrom p [] = []"
| "capitalizeFrom p (c # cs) =
     (if isWordChar c \<and> (case p of None \<Rightarrow> True | Some a \<Rightarrow> \<not> isWordChar a)
      then upperAZ c else c) # capitalizeFrom (Some c) cs"

definition capitalize :: "string \<Rightarrow> string" where
  "capitalize s = capitalizeFrom None s"

section \<open>Regular expressions of the text heuristics\<close>

text \<open>
  A pattern maps a cursor (the character before the position, and the rest of the input) to
  the cursors at which a match can end, in the order in which the backtracking matcher tries
  them: alternatives from left to right, greedy repetition longest first. All patterns of the
  source carry the flag \<^verbatim>\<open>i\<close>; their literals are ASCII.
\<close>

type_synonym cursor = "char option \<times> string"
type_synonym rx = "cursor \<Rightarrow> cursor list"

definition atBoundary :: "cursor \<Rightarrow> bool" where
  "atBoundary c =
     ((case fst c of None \<Rightarrow> False | Some a \<Rightarrow> isWordChar a) \<noteq>
      (case snd c of [] \<Rightarrow> False | b # _ \<Rightarrow> isWordChar b))"

definition rx_b :: rx where
  "rx_b c = (if atBoundary c then [c] else [])"

fun rx_lit :: "string \<Rightarrow> rx" where
  "rx_lit [] c = [c]"
| "rx_lit (x # xs) (p, []) = []"
| "rx_lit (x # xs) (p, y # ys) =
     (if lowerAZ x = lowerAZ y then rx_lit xs (Some y, ys) else [])"

definition rx_seq :: "rx \<Rightarrow> rx \<Rightarrow> rx" where
  "rx_seq a b c = concat (map b (a c))"

definition rx_alt :: "rx list \<Rightarrow> rx" where
  "rx_alt as c = concat (map (\<lambda>a. a c) as)"

definition rx_opt :: "rx \<Rightarrow> rx" where
  "rx_opt a c = a c @ [c]"

fun rx_cls :: "(char \<Rightarrow> bool) \<Rightarrow> rx" where
  "rx_cls P (p, []) = []"
| "rx_cls P (p, y # ys) = (if P y then [(Some y, ys)] else [])"

fun rx_star :: "(char \<Rightarrow> bool) \<Rightarrow> rx" where
  "rx_star P (p, []) = [(p, [])]"
| "rx_star P (p, y # ys) =
     (if P y then rx_star P (Some y, ys) @ [(p, y # ys)] else [(p, y # ys)])"

definition rx_plus :: "(char \<Rightarrow> bool) \<Rightarrow> rx" where
  "rx_plus P = rx_seq (rx_cls P) (rx_star P)"

definition rx_lits :: "string list \<Rightarrow> rx" where
  "rx_lits ws = rx_alt (map rx_lit ws)"

text \<open>A pattern with one capture group: prefix, group, suffix; the results are the captures.\<close>

definition captured :: "cursor \<Rightarrow> cursor \<Rightarrow> string" where
  "captured c1 c2 = take (length (snd c1) - length (snd c2)) (snd c1)"

definition rx_group :: "rx \<Rightarrow> rx \<Rightarrow> rx \<Rightarrow> cursor \<Rightarrow> string list" where
  "rx_group pre grp post c =
     concat (map (\<lambda>c1. concat (map (\<lambda>c2. map (\<lambda>_. captured c1 c2) (post c2)) (grp c1))) (pre c))"

text \<open>\<^verbatim>\<open>test\<close> and \<^verbatim>\<open>match\<close> try every start position from the left.\<close>

fun rx_test_from :: "rx \<Rightarrow> cursor \<Rightarrow> bool" where
  "rx_test_from r (p, []) = (r (p, []) \<noteq> [])"
| "rx_test_from r (p, y # ys) = (r (p, y # ys) \<noteq> [] \<or> rx_test_from r (Some y, ys))"

definition rx_test :: "rx \<Rightarrow> string \<Rightarrow> bool" where
  "rx_test r s = rx_test_from r (None, s)"

fun rx_match_from :: "(cursor \<Rightarrow> string list) \<Rightarrow> cursor \<Rightarrow> string option" where
  "rx_match_from g (p, []) = (case g (p, []) of [] \<Rightarrow> None | m # _ \<Rightarrow> Some m)"
| "rx_match_from g (p, y # ys) =
     (case g (p, y # ys) of [] \<Rightarrow> rx_match_from g (Some y, ys) | m # _ \<Rightarrow> Some m)"

definition rx_match :: "(cursor \<Rightarrow> string list) \<Rightarrow> string \<Rightarrow> string option" where
  "rx_match g s = rx_match_from g (None, s)"

section \<open>Menu and text heuristics\<close>

record menuEntry =
  price :: rat
  category :: string

text \<open>
  The table \<^verbatim>\<open>MENU\<close>, looked up on its own fourteen keys. Names that a JavaScript object
  inherits, such as \<^verbatim>\<open>constructor\<close>, are not keys of the model; the source reads
  \<^verbatim>\<open>MENU[key]\<close>, which answers such a name with the inherited member, a value that is not
  skipped by \<^verbatim>\<open>if (!item)\<close> and has no price. The model covers the item names that are
  not inherited names.
\<close>

definition MENU :: "string \<Rightarrow> menuEntry option" where
  "MENU = map_of
     [(''matcha latte'',         \<lparr>price = 20, category = ''Matcha''\<rparr>),
      (''usucha matcha'',        \<lparr>price = 20, category = ''Matcha''\<rparr>),
      (''coco matcha'',          \<lparr>price = 25, category = ''Matcha''\<rparr>),
      (''salted cloudy matcha'', \<lparr>price = 25, category = ''Matcha''\<rparr>),
      (''matcha tonic'',         \<lparr>price = 25, category = ''Matcha''\<rparr>),
      (''vietnamese coffee'',    \<lparr>price = 20, category = ''Coffee''\<rparr>),
      (''espresso'',             \<lparr>price = 20, category = ''Coffee''\<rparr>),
      (''americano'',            \<lparr>price = 20, category = ''Coffee''\<rparr>),
      (''espresso/americano'',   \<lparr>price = 20, category = ''Coffee''\<rparr>),
      (''cold brew'',            \<lparr>price = 20, category = ''Coffee''\<rparr>),
      (''coco coolbrew'',        \<lparr>price = 25, category = ''Coffee''\<rparr>),
      (''latte'',                \<lparr>price = 25, category = ''Coffee''\<rparr>),
      (''espresso tonic'',       \<lparr>price = 25, category = ''Coffee''\<rparr>),
      (''salted cloudy coffee'', \<lparr>price = 25, category = ''Coffee''\<rparr>)]"

text \<open>
  What the language model returns: an item is an object whose \<open>name\<close> is a string or
  absent; \<open>items\<close> is \<open>None\<close> when the field is not an array.
\<close>

record item =
  name :: "string option"
  qty :: jsval

record parsed =
  intent :: string
  items :: "item list option"
  customer :: "string option"
  paid :: jsval

definition payVerbs :: rx where
  "payVerbs = rx_alt [rx_seq (rx_lit ''pai'') (rx_opt (rx_lit ''d'')),
                      rx_lit ''pay'', rx_lit ''pays'', rx_lit ''payment'']"

definition currencyWord :: rx where
  "currencyWord = rx_alt [rx_lit ''aed'', rx_seq (rx_lit ''dh'') (rx_opt (rx_lit ''s'')),
                          rx_seq (rx_lit ''dirham'') (rx_opt (rx_lit ''s''))]"

definition numberGroup :: rx where
  "numberGroup = rx_seq (rx_plus isDigit) (rx_opt (rx_seq (rx_lit ''.'') (rx_plus isDigit)))"

definition zeroPaidPattern :: rx where
  "zeroPaidPattern =
     rx_seq rx_b (rx_seq payVerbs (rx_seq (rx_plus isSpace)
       (rx_seq (rx_lits [''nothing'', ''none'', ''zero'']) rx_b)))"

definition noPaymentPattern :: rx where
  "noPaymentPattern = rx_seq rx_b (rx_seq (rx_lit ''no payment'') rx_b)"

definition paidPattern1 :: "cursor \<Rightarrow> string list" where
  "paidPattern1 =
     rx_group
       (rx_seq rx_b
          (rx_seq (rx_alt [payVerbs, rx_lit ''gave'', rx_lit ''give'', rx_lit ''handed''])
             (rx_seq (rx_star isSpace) (rx_seq (rx_opt currencyWord) (rx_star isSpace)))))
       numberGroup rx_b"

definition paidPattern2 :: "cursor \<Rightarrow> string list" where
  "paidPattern2 =
     rx_group rx_b numberGroup
       (rx_seq (rx_star isSpace) (rx_seq (rx_opt currencyWord) (rx_seq (rx_star isSpace)
          (rx_seq (rx_alt [rx_seq (rx_lit ''pai'') (rx_opt (rx_lit ''d'')),
                           rx_lit ''pay'', rx_lit ''pays'']) rx_b))))"

fun firstAmount :: "(cursor \<Rightarrow> string list) list \<Rightarrow> string \<Rightarrow> rat option" where
  "firstAmount [] text = None"
| "firstAmount (pat # pats) text =
     (case rx_match pat text of
        None \<Rightarrow> firstAmount pats text
      | Some m \<Rightarrow>
          (case parseNumberOrNull (JStr m) of
             None \<Rightarrow> firstAmount pats text
           | Some amount \<Rightarrow> Some amount))"

definition extractPaidAmount :: "string \<Rightarrow> rat option" where
  "extractPaidAmount text =
     (if rx_test zeroPaidPattern text \<or> rx_test noPaymentPattern text then Some 0
      else firstAmount [paidPattern1, paidPattern2] text)"

definition isNameStart :: "char \<Rightarrow> bool" where
  "isNameStart c = (isLowerAZ c \<or> isUpperAZ c)"

definition isNameChar :: "char \<Rightarrow> bool" where
  "isNameChar c = (isLowerAZ c \<or> isUpperAZ c \<or> isDigit c \<or>
                   c = CHR 0x27 \<or> c = CHR ''_'' \<or> c = CHR ''-'')"

definition inferCustomerFromText :: "string \<Rightarrow> string option" where
  "inferCustomerFromText text =
     rx_match (rx_group (rx_seq rx_b (rx_seq (rx_lits [''to'', ''for'']) (rx_plus isSpace)))
                 (rx_seq (rx_cls isNameStart) (rx_star isNameChar)) rx_b) text"

text \<open>The catalog key of an item: \<^verbatim>\<open>(it?.name || "").toLowerCase().trim()\<close>.\<close>

definition keyOf :: "item \<Rightarrow> string" where
  "keyOf it = trim (toLowerCase (case name it of None \<Rightarrow> [] | Some s \<Rightarrow> s))"

text \<open>\<^verbatim>\<open>Math.max(1, parseInt(it.qty) || 1)\<close>, with or without the radix argument.\<close>

definition qtyOf :: "bool \<Rightarrow> item \<Rightarrow> int" where
  "qtyOf radix10 it =
     max 1 (case parseInt radix10 (qty it) of None \<Rightarrow> 1 | Some n \<Rightarrow> if n = 0 then 1 else n)"

definition inferTotalFromItems :: "item list option \<Rightarrow> rat" where
  "inferTotalFromItems its =
     (case its of
        None \<Rightarrow> 0
      | Some l \<Rightarrow>
          foldl (\<lambda>sum it. case MENU (keyOf it) of
                             None \<Rightarrow> sum
                           | Some m \<Rightarrow> sum + price m * of_int (qtyOf True it)) 0 l)"

definition normalizeAmbiguousItems :: "item list option \<Rightarrow> string \<Rightarrow> item list" where
  "normalizeAmbiguousItems its userText =
     (case its of
        None \<Rightarrow> []
      | Some l \<Rightarrow>
          let hasLatteWord = rx_test (rx_seq rx_b (rx_seq (rx_lit ''latte'') rx_b)) userText;
              hasMatchaWord = rx_test (rx_seq rx_b (rx_seq (rx_lit ''matcha'') rx_b)) userText
          in map (\<lambda>it. if keyOf it = ''matcha latte'' \<and> hasLatteWord \<and> \<not> hasMatchaWord
                        then it\<lparr>name := Some ''latte''\<rparr> else it) l)"

section \<open>The row store\<close>

text \<open>
  The spreadsheet is used through \<^verbatim>\<open>appendRow\<close>, \<^verbatim>\<open>getSheetData\<close> and \<^verbatim>\<open>updateCell\<close>.
  A sheet is its list of rows, header first; a sheet that does not exist is \<open>None\<close>. A cell
  holds a text, a number, or the text of a number followed by \<^verbatim>\<open>" AED"\<close> (\<open>CAed\<close>); a read
  returns the cells as they were written, rows in the order of insertion, whatever the
  size of the sheet. The calls of the store succeed: a failure of the service in the middle
  of a write is not part of the model.
\<close>

datatype cell = CStr string | CNum rat | CAed jsnum

type_synonym row = "cell list"
type_synonym table = "row list"

datatype sheetName = SHEET_SALES | SHEET_DEBT | SHEET_SUMMARY

type_synonym store = "sheetName \<Rightarrow> table option"

definition headers :: "sheetName \<Rightarrow> row" where
  "headers n =
     (case n of
        SHEET_SALES \<Rightarrow> map CStr [''Date'', ''Time'', ''Item'', ''Category'', ''Price (AED)'',
                                  ''Paid (AED)'', ''Owed (AED)'', ''Customer/Note'']
      | SHEET_DEBT \<Rightarrow> map CStr [''Date'', ''Customer'', ''Item'', ''Item Price'', ''Paid'',
                                 ''Still Owes'', ''Status'', ''Settled On'']
      | SHEET_SUMMARY \<Rightarrow> map CStr [''Metric'', ''Value''])"

definition ensureSheet :: "store \<Rightarrow> sheetName \<Rightarrow> store" where
  "ensureSheet st n = (case st n of Some t \<Rightarrow> st | None \<Rightarrow> st(n \<mapsto> [headers n]))"

definition appendRow :: "store \<Rightarrow> sheetName \<Rightarrow> row \<Rightarrow> store" where
  "appendRow st n rowData =
     (let st1 = ensureSheet st n
      in st1(n \<mapsto> (case st1 n of None \<Rightarrow> [] | Some t \<Rightarrow> t) @ [rowData]))"

definition getSheetData :: "store \<Rightarrow> sheetName \<Rightarrow> store \<times> table" where
  "getSheetData st n =
     (let st1 = ensureSheet st n
      in (st1, case st1 n of None \<Rightarrow> [] | Some t \<Rightarrow> t))"

definition setCell :: "row \<Rightarrow> nat \<Rightarrow> cell \<Rightarrow> row" where
  "setCell r k v =
     (if k < length r then r[k := v] else r @ replicate (k - length r) (CStr []) @ [v])"

definition setCellAt :: "table \<Rightarrow> nat \<Rightarrow> nat \<Rightarrow> cell \<Rightarrow> table" where
  "setCellAt t i k v =
     (if i < length t then t[i := setCell (t ! i) k v]
      else t @ replicate (i - length t) [] @ [setCell [] k v])"

text \<open>\<open>row\<close> and \<open>col\<close> count from 1, as the sheet does.\<close>

definition updateCell :: "store \<Rightarrow> sheetName \<Rightarrow> nat \<Rightarrow> nat \<Rightarrow> cell \<Rightarrow> store" where
  "updateCell st n row col v =
     (case st n of None \<Rightarrow> st | Some t \<Rightarrow> st(n \<mapsto> setCellAt t (row - 1) (col - 1) v))"

definition cellAt :: "row \<Rightarrow> nat \<Rightarrow> cell option" where
  "cellAt r k = (if k < length r then Some (r ! k) else None)"

definition parseFloatCell :: "cell option \<Rightarrow> jsnum" where
  "parseFloatCell c =
     (case c of
        None \<Rightarrow> NaN
      | Some (CStr s) \<Rightarrow> parseFloatStr s
      | Some (CNum r) \<Rightarrow> Fin r
      | Some (CAed x) \<Rightarrow> x)"

text \<open>
  \<^verbatim>\<open>(data[i][1] || "")\<close>: the text of a cell, empty when the cell is missing; a cell that
  holds a number has no text to compare.
\<close>

definition cellText :: "cell option \<Rightarrow> string option" where
  "cellText c = (case c of None \<Rightarrow> Some [] | Some (CStr s) \<Rightarrow> Some s | Some _ \<Rightarrow> None)"

text \<open>
  The clock of one invocation: \<^verbatim>\<open>formatDate(new Date())\<close>, \<^verbatim>\<open>formatTime(new Date())\<close> and
  \<^verbatim>\<open>new Date().toLocaleString()\<close>.
\<close>

record clock =
  today :: string
  timeNow :: string
  localeNow :: string

section \<open>The summary\<close>

definition sumCol :: "nat \<Rightarrow> table \<Rightarrow> jsnum" where
  "sumCol k rows = foldl (\<lambda>s r. jadd s (orZero (parseFloatCell (cellAt r k)))) (Fin 0) rows"

definition summaryRows :: "clock \<Rightarrow> table \<Rightarrow> table \<Rightarrow> table" where
  "summaryRows clk salesData debtData =
     (let sales = drop 1 salesData;
          debts = drop 1 debtData;
          totalRevenue = sumCol 4 sales;
          totalCollected = sumCol 5 sales;
          totalOwed = sumCol 5 (filter (\<lambda>r. cellAt r 6 = Some (CStr ''Pending'')) debts);
          totalSettled = sumCol 5 (filter (\<lambda>r. cellAt r 6 = Some (CStr ''Settled'')) debts);
          todaySales = filter (\<lambda>r. cellAt r 0 = Some (CStr (today clk))) sales;
          todayRev = sumCol 4 todaySales;
          todayPaid = sumCol 5 todaySales
      in [[CStr ''Metric'', CStr ''Value''],
          [CStr ''Last Updated'', CStr (localeNow clk)],
          [CStr ''--- TODAY ---'', CStr []],
          [CStr ''Today's Revenue'', CAed todayRev],
          [CStr ''Today's Collected'', CAed todayPaid],
          [CStr ''--- ALL TIME ---'', CStr []],
          [CStr ''Total Revenue'', CAed totalRevenue],
          [CStr ''Total Collected'', CAed totalCollected],
          [CStr ''Total Transactions'', CNum (of_nat (length sales))],
          [CStr ''--- DEBTS ---'', CStr []],
          [CStr ''Unsettled Debts'', CAed totalOwed],
          [CStr ''Settled Debts'', CAed totalSettled]])"

definition updateSummary :: "clock \<Rightarrow> store \<Rightarrow> store" where
  "updateSummary clk st =
     (let (st1, salesData) = getSheetData st SHEET_SALES;
          (st2, debtData) = getSheetData st1 SHEET_DEBT;
          rows = summaryRows clk salesData debtData;
          st3 = ensureSheet st2 SHEET_SUMMARY
      in st3(SHEET_SUMMARY \<mapsto> rows))"

section \<open>Resolving the intent\<close>

definition truthyStr :: "string option \<Rightarrow> bool" where
  "truthyStr s = (case s of None \<Rightarrow> False | Some t \<Rightarrow> t \<noteq> [])"

definition explicitPaidOf :: "parsed \<Rightarrow> string \<Rightarrow> rat option" where
  "explicitPaidOf p text =
     (let paidFromModel = parseNumberOrNull (paid p);
          paidFromText = extractPaidAmount text
      in case paidFromModel of Some v \<Rightarrow> Some v | None \<Rightarrow> paidFromText)"

text \<open>The statements of \<^verbatim>\<open>bot.on('text')\<close> between the parse and the dispatch.\<close>

definition resolveIntent :: "string \<Rightarrow> parsed \<Rightarrow> parsed" where
  "resolveIntent text p0 =
     (let p1 = p0\<lparr>items := Some (normalizeAmbiguousItems (items p0) text)\<rparr>;
          explicitPaid = explicitPaidOf p1 text;
          p2 = (case explicitPaid of None \<Rightarrow> p1 | Some e \<Rightarrow> p1\<lparr>paid := JNum e\<rparr>);
          hintedCustomer = inferCustomerFromText text;
          p3 = (if \<not> truthyStr (customer p2) \<and> truthyStr hintedCustomer
                then p2\<lparr>customer := hintedCustomer\<rparr> else p2);
          inferredTotal = inferTotalFromItems (items p3)
      in if intent p3 = ''sale'' \<and> 0 < inferredTotal \<and>
            (case explicitPaid of None \<Rightarrow> False | Some e \<Rightarrow> e < inferredTotal - 1 / 100)
         then p3\<lparr>intent := ''debt''\<rparr> else p3)"

section \<open>Recording sales and debts\<close>

text \<open>A line of the confirmation: quantity, item and amount.\<close>

type_synonym line = "int \<times> string \<times> rat"

datatype reply =
    CouldNotReachAI
  | NoItemsSale
  | NoItemsDebt
  | ItemNotFound "string option"
  | SaleRecorded "line list" rat
  | PaidExceeds rat rat
  | DebtRecorded "line list" rat rat rat string
  | WhoToSettle
  | SettleUsage
  | NoPendingDebts string
  | SettledFor jsnum string
  | UseCommand string
  | ClearAllHint
  | NotUnderstood

fun appendTimes :: "nat \<Rightarrow> store \<Rightarrow> sheetName \<Rightarrow> row \<Rightarrow> store" where
  "appendTimes 0 st n r = st"
| "appendTimes (Suc k) st n r = appendTimes k (appendRow st n r) n r"

definition saleRow :: "clock \<Rightarrow> string \<Rightarrow> menuEntry \<Rightarrow> row" where
  "saleRow clk key m =
     [CStr (today clk), CStr (timeNow clk), CStr (capitalize key), CStr (category m),
      CNum (price m), CNum (price m), CNum 0, CStr ''Paid in full'']"

fun saleLoop :: "clock \<Rightarrow> item list \<Rightarrow> store \<times> reply list \<times> line list \<times> rat
                   \<Rightarrow> store \<times> reply list \<times> line list \<times> rat" where
  "saleLoop clk [] acc = acc"
| "saleLoop clk (it # its) (st, rs, lines, runningTotal) =
     (case MENU (keyOf it) of
        None \<Rightarrow> saleLoop clk its (st, rs @ [ItemNotFound (name it)], lines, runningTotal)
      | Some m \<Rightarrow>
          saleLoop clk its
            (appendTimes (nat (qtyOf False it)) st SHEET_SALES (saleRow clk (keyOf it) m),
             rs,
             lines @ [(qtyOf False it, capitalize (keyOf it), price m * of_int (qtyOf False it))],
             runningTotal + price m * of_int (qtyOf False it)))"

definition noItems :: "parsed \<Rightarrow> bool" where
  "noItems p = (case items p of None \<Rightarrow> True | Some l \<Rightarrow> l = [])"

definition itemsOf :: "parsed \<Rightarrow> item list" where
  "itemsOf p = (case items p of None \<Rightarrow> [] | Some l \<Rightarrow> l)"

definition salePath :: "clock \<Rightarrow> parsed \<Rightarrow> store \<Rightarrow> store \<times> reply list" where
  "salePath clk p st =
     (if noItems p then (st, [NoItemsSale])
      else
        case saleLoop clk (itemsOf p) (st, [], [], 0) of (st1, rs, lines, runningTotal) \<Rightarrow>
          if lines = [] then (st1, rs)
          else (updateSummary clk st1, rs @ [SaleRecorded lines runningTotal]))"

text \<open>A resolved item of the debt branch: key, menu entry and quantity.\<close>

type_synonym validItem = "string \<times> menuEntry \<times> int"

fun debtResolve :: "item list \<Rightarrow> reply list \<times> rat \<times> validItem list
                      \<Rightarrow> reply list \<times> rat \<times> validItem list" where
  "debtResolve [] acc = acc"
| "debtResolve (it # its) (rs, totalItemPrice, validItems) =
     (case MENU (keyOf it) of
        None \<Rightarrow> debtResolve its (rs @ [ItemNotFound (name it)], totalItemPrice, validItems)
      | Some m \<Rightarrow>
          debtResolve its
            (rs, totalItemPrice + price m * of_int (qtyOf False it),
             validItems @ [(keyOf it, m, qtyOf False it)]))"

definition itemTotalOf :: "validItem \<Rightarrow> rat" where
  "itemTotalOf v = (case v of (key, m, q) \<Rightarrow> price m * of_int q)"

definition itemPaidOf :: "rat \<Rightarrow> rat \<Rightarrow> validItem \<Rightarrow> rat" where
  "itemPaidOf totalItemPrice totalPaid v =
     (if 0 < totalItemPrice
      then jsRound ((itemTotalOf v / totalItemPrice) * totalPaid * 100) / 100 else 0)"

definition itemOwedOf :: "rat \<Rightarrow> rat \<Rightarrow> validItem \<Rightarrow> rat" where
  "itemOwedOf totalItemPrice totalPaid v =
     jsRound ((itemTotalOf v - itemPaidOf totalItemPrice totalPaid v) * 100) / 100"

definition unitPaid :: "rat \<Rightarrow> int \<Rightarrow> rat" where
  "unitPaid itemPaid q = jsRound ((itemPaid / of_int q) * 100) / 100"

definition unitOwed :: "menuEntry \<Rightarrow> rat \<Rightarrow> rat" where
  "unitOwed m uP = jsRound ((price m - uP) * 100) / 100"

definition debtSaleRow :: "clock \<Rightarrow> string \<Rightarrow> validItem \<Rightarrow> rat \<Rightarrow> row" where
  "debtSaleRow clk cust v itemPaid =
     (case v of (key, m, q) \<Rightarrow>
        [CStr (today clk), CStr (timeNow clk), CStr (capitalize key), CStr (category m),
         CNum (price m), CNum (unitPaid itemPaid q), CNum (unitOwed m (unitPaid itemPaid q)),
         CStr cust])"

definition debtRow :: "clock \<Rightarrow> string \<Rightarrow> validItem \<Rightarrow> rat \<Rightarrow> row" where
  "debtRow clk cust v itemPaid =
     (case v of (key, m, q) \<Rightarrow>
        [CStr (today clk), CStr cust, CStr (capitalize key), CNum (price m),
         CNum (unitPaid itemPaid q), CNum (unitOwed m (unitPaid itemPaid q)),
         CStr ''Pending'', CStr []])"

text \<open>The inner loop: one Sales row per unit, and a Debts row when the unit still owes.\<close>

fun debtUnits :: "nat \<Rightarrow> clock \<Rightarrow> string \<Rightarrow> validItem \<Rightarrow> rat \<Rightarrow> store \<Rightarrow> store" where
  "debtUnits 0 clk cust v itemPaid st = st"
| "debtUnits (Suc k) clk cust v itemPaid st =
     (let st1 = appendRow st SHEET_SALES (debtSaleRow clk cust v itemPaid);
          st2 = (if 0 < unitOwed (fst (snd v)) (unitPaid itemPaid (snd (snd v)))
                 then appendRow st1 SHEET_DEBT (debtRow clk cust v itemPaid) else st1)
      in debtUnits k clk cust v itemPaid st2)"

fun debtLoop :: "clock \<Rightarrow> string \<Rightarrow> rat \<Rightarrow> rat \<Rightarrow> validItem list
                   \<Rightarrow> store \<times> line list \<times> rat \<Rightarrow> store \<times> line list \<times> rat" where
  "debtLoop clk cust totalItemPrice totalPaid [] acc = acc"
| "debtLoop clk cust totalItemPrice totalPaid (v # vs) (st, lines, totalOwed) =
     debtLoop clk cust totalItemPrice totalPaid vs
       (debtUnits (nat (snd (snd v))) clk cust v (itemPaidOf totalItemPrice totalPaid v) st,
        lines @ [(snd (snd v), capitalize (fst v), itemTotalOf v)],
        totalOwed + itemOwedOf totalItemPrice totalPaid v)"

definition customerOf :: "parsed \<Rightarrow> string" where
  "customerOf p =
     trim (case customer p of None \<Rightarrow> ''Unknown'' | Some c \<Rightarrow> if c = [] then ''Unknown'' else c)"

definition totalPaidOf :: "parsed \<Rightarrow> rat" where
  "totalPaidOf p = (case parseNumberOrNull (paid p) of None \<Rightarrow> 0 | Some n \<Rightarrow> n)"

definition debtPath :: "clock \<Rightarrow> parsed \<Rightarrow> store \<Rightarrow> store \<times> reply list" where
  "debtPath clk p st =
     (if noItems p then (st, [NoItemsDebt])
      else
        case debtResolve (itemsOf p) ([], 0, []) of (rs, totalItemPrice, validItems) \<Rightarrow>
          if validItems = [] then (st, rs)
          else if totalItemPrice < totalPaidOf p
          then (st, rs @ [PaidExceeds (totalPaidOf p) totalItemPrice])
          else
            case debtLoop clk (customerOf p) totalItemPrice (totalPaidOf p) validItems (st, [], 0)
            of (st1, lines, totalOwed) \<Rightarrow>
              (updateSummary clk st1,
               rs @ [DebtRecorded lines totalItemPrice (totalPaidOf p) totalOwed (customerOf p)]))"

section \<open>Settling debts\<close>

definition rowMatches :: "string \<Rightarrow> row \<Rightarrow> bool" where
  "rowMatches nm r =
     (map_option toLowerCase (cellText (cellAt r 1)) = Some (toLowerCase nm) \<and>
      cellAt r 6 = Some (CStr ''Pending''))"

definition rowOwed :: "row \<Rightarrow> jsnum" where
  "rowOwed r = orZero (parseFloatCell (cellAt r 5))"

text \<open>
  The test \<^verbatim>\<open>amount === null || settled + rowOwed <= amount + 0.01\<close> of the loop, on exact
  amounts. The source adds and compares in binary64, where a sum can fall just below the
  decimal it stands for (5.39 + 0.01 is below 5.4), so that a row at the very edge of the
  tolerance may stay pending there.
\<close>

definition fits :: "jsnum option \<Rightarrow> jsnum \<Rightarrow> row \<Rightarrow> bool" where
  "fits amount settled r =
     (case amount of
        None \<Rightarrow> True
      | Some a \<Rightarrow> jle (jadd settled (rowOwed r)) (jadd a (Fin (1 / 100))))"

text \<open>
  The loop of \<^verbatim>\<open>bot.command('settle')\<close> and of the settle branch of \<^verbatim>\<open>bot.on('text')\<close>,
  which are the same text: \<open>i\<close> is the index of the first row of \<open>rows\<close> in the data read.
\<close>

fun settleLoop :: "clock \<Rightarrow> string \<Rightarrow> jsnum option \<Rightarrow> nat \<Rightarrow> table
                     \<Rightarrow> store \<times> jsnum \<Rightarrow> store \<times> jsnum" where
  "settleLoop clk nm amount i [] acc = acc"
| "settleLoop clk nm amount i (r # rows) (st, settled) =
     (if rowMatches nm r \<and> fits amount settled r
      then settleLoop clk nm amount (Suc i) rows
             (updateCell (updateCell st SHEET_DEBT (i + 1) 7 (CStr ''Settled''))
                SHEET_DEBT (i + 1) 8 (CStr (today clk)),
              jadd settled (rowOwed r))
      else settleLoop clk nm amount (Suc i) rows (st, settled))"

definition settleFor :: "clock \<Rightarrow> string \<Rightarrow> jsnum option \<Rightarrow> store \<Rightarrow> store \<times> reply list" where
  "settleFor clk nm amount st =
     (case getSheetData st SHEET_DEBT of (st1, data) \<Rightarrow>
        case settleLoop clk nm amount 1 (drop 1 data) (st1, Fin 0) of (st2, settled) \<Rightarrow>
          if settled = Fin 0 then (updateSummary clk st2, [NoPendingDebts nm])
          else (updateSummary clk st2,
                [SettledFor (jsScale (jsRoundNum (jsScale settled 100)) (1 / 100)) nm]))"

text \<open>\<^verbatim>\<open>parseFloat(parsed.paid) || null\<close>.\<close>

definition capOfPaid :: "jsval \<Rightarrow> jsnum option" where
  "capOfPaid v = (if falsyNum (parseFloat v) then None else Some (parseFloat v))"

definition settlePath :: "clock \<Rightarrow> parsed \<Rightarrow> store \<Rightarrow> store \<times> reply list" where
  "settlePath clk p st =
     (case customer p of
        None \<Rightarrow> (st, [WhoToSettle])
      | Some c \<Rightarrow>
          if c = [] then (st, [WhoToSettle])
          else settleFor clk (trim c) (capOfPaid (paid p)) st)"

subsection \<open>The command /settle\<close>

fun replaceFirst :: "string \<Rightarrow> string \<Rightarrow> string \<Rightarrow> string" where
  "replaceFirst pat rep [] = (if pat = [] then rep else [])"
| "replaceFirst pat rep (c # cs) =
     (if startsWith pat (c # cs) then rep @ drop (length pat) (c # cs)
      else c # replaceFirst pat rep cs)"

text \<open>\<^verbatim>\<open>split(/\s+/)\<close>: \<open>cur\<close> is the piece being read, \<open>insep\<close> tells a separator is being read.\<close>

fun splitWs :: "string \<Rightarrow> bool \<Rightarrow> string \<Rightarrow> string list" where
  "splitWs cur insep [] = [cur]"
| "splitWs cur insep (c # cs) =
     (if isSpace c then (if insep then splitWs cur True cs else cur # splitWs [] True cs)
      else splitWs (cur @ [c]) False cs)"

fun joinSp :: "string list \<Rightarrow> string" where
  "joinSp [] = []"
| "joinSp [x] = x"
| "joinSp (x # y # zs) = x @ '' '' @ joinSp (y # zs)"

definition settleArgs :: "string \<Rightarrow> string \<times> jsnum option" where
  "settleArgs text =
     (let parts = splitWs [] False (trim (replaceFirst ''/settle'' [] text));
          lst = last parts;
          hasAmt = (parseFloatStr lst \<noteq> NaN \<and> 1 < length parts)
      in (if hasAmt then joinSp (butlast parts) else joinSp parts,
          if hasAmt then Some (parseFloatStr lst) else None))"

definition settleCommand :: "clock \<Rightarrow> string \<Rightarrow> store \<Rightarrow> store \<times> reply list" where
  "settleCommand clk text st =
     (case settleArgs text of (nm, amount) \<Rightarrow>
        if nm = [] then (st, [SettleUsage]) else settleFor clk nm amount st)"

section \<open>The handler of text messages\<close>

text \<open>
  \<open>groq\<close> is the answer of \<^verbatim>\<open>parseWithGroq\<close> to the trimmed text, \<open>None\<close> when the call
  failed. The result is the store afterwards and the replies sent, in order.
\<close>

definition onText :: "clock \<Rightarrow> string \<Rightarrow> parsed option \<Rightarrow> store \<Rightarrow> store \<times> reply list" where
  "onText clk raw groq st =
     (let text = trim raw
      in if startsWith ''/'' text then (st, [])
         else case groq of
           None \<Rightarrow> (st, [CouldNotReachAI])
         | Some p0 \<Rightarrow>
             let p = resolveIntent text p0
             in if intent p = ''sale'' then salePath clk p st
                else if intent p = ''debt'' then debtPath clk p st
                else if intent p = ''settle'' then settlePath clk p st
                else if intent p = ''summary'' then (st, [UseCommand ''/summary''])
                else if intent p = ''debts'' then (st, [UseCommand ''/debts''])
                else if intent p = ''menu'' then (st, [UseCommand ''/menu''])
                else if intent p = ''help'' then (st, [UseCommand ''/help''])
                else if intent p = ''clearall'' then (st, [ClearAllHint])
                else (st, [NotUnderstood]))"

section \<open>Notions of the specification\<close>

text \<open>
  What a read of a sheet returns: every read goes through \<^verbatim>\<open>ensureSheet\<close>, so a sheet that
  does not exist yet reads as its header row.
\<close>

definition sheetContents :: "store \<Rightarrow> sheetName \<Rightarrow> table" where
  "sheetContents st n = (case st n of None \<Rightarrow> [headers n] | Some t \<Rightarrow> t)"

text \<open>
  First-fit settlement as the specification words it: the rows are visited in stored order;
  a pending row of the customer is marked settled, with today's date, when no cap was given
  or when the running total plus the row's owed amount is at most the cap plus 0.01; the
  running total grows by the owed amount of each row settled.
\<close>

definition markSettled :: "clock \<Rightarrow> row \<Rightarrow> row" where
  "markSettled clk r = setCell (setCell r 6 (CStr ''Settled'')) 7 (CStr (today clk))"

fun firstFitSettle :: "clock \<Rightarrow> string \<Rightarrow> jsnum option \<Rightarrow> jsnum \<Rightarrow> table \<Rightarrow> table" where
  "firstFitSettle clk nm cap runningSettled [] = []"
| "firstFitSettle clk nm cap runningSettled (r # rows) =
     (if rowMatches nm r \<and> fits cap runningSettled r
      then markSettled clk r # firstFitSettle clk nm cap (jadd runningSettled (rowOwed r)) rows
      else r # firstFitSettle clk nm cap runningSettled rows)"

fun firstFitTotal :: "string \<Rightarrow> jsnum option \<Rightarrow> jsnum \<Rightarrow> table \<Rightarrow> jsnum" where
  "firstFitTotal nm cap runningSettled [] = runningSettled"
| "firstFitTotal nm cap runningSettled (r # rows) =
     (if rowMatches nm r \<and> fits cap runningSettled r
      then firstFitTotal nm cap (jadd runningSettled (rowOwed r)) rows
      else firstFitTotal nm cap runningSettled rows)"

text \<open>
  The amount settled as the sheet shows it: the owed amounts of the rows that differ between
  the sheet before and the sheet after, added up in stored order.
\<close>

fun settledAmount :: "jsnum \<Rightarrow> table \<Rightarrow> table \<Rightarrow> jsnum" where
  "settledAmount s (r # before) (r' # after) =
     settledAmount (if r' = r then s else jadd s (rowOwed r)) before after"
| "settledAmount s before after = s"

text \<open>
  A text contains a word when the word occurs in it, letters compared without case, with no
  word character directly before or after the occurrence. \<open>wordPattern\<close> is the pattern
  \<^verbatim>\<open>/\bword\b/i\<close> and \<open>cursorAt\<close> the cursor at an index of the text.
\<close>

definition wordAt :: "string \<Rightarrow> string \<Rightarrow> nat \<Rightarrow> bool" where
  "wordAt w text i =
     (i + length w \<le> length text \<and>
      map lowerAZ (take (length w) (drop i text)) = w \<and>
      (i = 0 \<or> \<not> isWordChar (text ! (i - 1))) \<and>
      (i + length w = length text \<or> \<not> isWordChar (text ! (i + length w))))"

definition containsWord :: "string \<Rightarrow> string \<Rightarrow> bool" where
  "containsWord w text = list_ex (wordAt w text) [0..<Suc (length text)]"

definition wordPattern :: "string \<Rightarrow> rx" where
  "wordPattern w = rx_seq rx_b (rx_seq (rx_lit w) rx_b)"

definition cursorAt :: "char option \<Rightarrow> string \<Rightarrow> nat \<Rightarrow> cursor" where
  "cursorAt p s i = (if i = 0 then p else Some (s ! (i - 1)), drop i s)"

text \<open>No row of the Debts sheet owes a negative amount.\<close>

definition owedNonneg :: "store \<Rightarrow> bool" where
  "owedNonneg st = list_all (\<lambda>r. jle (Fin 0) (rowOwed r)) (sheetContents st SHEET_DEBT)"

subsection \<open>Example data\<close>

definition clkA :: clock where
  "clkA = \<lparr>today = ''2026-11-03'', timeNow = ''10:00:00'', localeNow = ''11/3/2026, 10:00:00 AM''\<rparr>"

definition clkB :: clock where
  "clkB = \<lparr>today = ''2026-11-03'', timeNow = ''10:00:01'', localeNow = ''11/3/2026, 10:00:01 AM''\<rparr>"

definition overpaidLatte :: parsed where
  "overpaidLatte = \<lparr>intent = ''debt'', items = Some [\<lparr>name = Some ''latte'', qty = JNum 1\<rparr>],
                     customer = Some ''Ahmed'', paid = JNum 30\<rparr>"

definition debtOf :: "string \<Rightarrow> rat \<Rightarrow> row" where
  "debtOf cust owed =
     [CStr ''2026-11-01'', CStr cust, CStr ''Latte'', CNum 25, CNum (25 - owed), CNum owed,
      CStr ''Pending'', CStr []]"

definition debts1086 :: store where
  "debts1086 = (\<lambda>_. None)(SHEET_DEBT \<mapsto>
      [headers SHEET_DEBT, debtOf ''X'' 10, debtOf ''X'' 8, debtOf ''X'' 6])"

definition debtsTiny :: store where
  "debtsTiny = (\<lambda>_. None)(SHEET_DEBT \<mapsto>
      [headers SHEET_DEBT, debtOf ''Ahmed'' (1 / 100), debtOf ''Ahmed'' 8])"

definition statusColumn :: "store \<Rightarrow> cell option list" where
  "statusColumn st = map (\<lambda>r. cellAt r 6) (drop 1 (sheetContents st SHEET_DEBT))"

definition settleX0 :: parsed where
  "settleX0 = \<lparr>intent = ''settle'', items = None, customer = Some '' x '', paid = JNum 0\<rparr>"

section \<open>Verified properties\<close>

subsection \<open>Arithmetic of rounding\<close>

lemma jsRound_upper: "jsRound x \<le> x + 1 / 2"
  unfolding jsRound_def by (simp add: of_int_floor_le)

lemma jsRound_lower: "x - 1 / 2 < jsRound x"
proof -
  have "x + 1 / 2 < of_int \<lfloor>x + 1 / 2\<rfloor> + 1"
    using floor_correct [of "x + 1 / 2"] by simp
  then show ?thesis unfolding jsRound_def by simp
qed

text \<open>The resolution loop of the debt branch answers every item it does not resolve.\<close>

lemma debtResolve_length:
  "debtResolve its (rs0, T0, vs0) = (rs, T, vs) \<Longrightarrow>
   length rs + length vs = length rs0 + length vs0 + length its"
proof (induction its arbitrary: rs0 T0 vs0)
  case Nil
  then show ?case by auto
next
  case (Cons it its)
  show ?case
  proof (cases "MENU (keyOf it)")
    case None
    with Cons.prems have "debtResolve its (rs0 @ [ItemNotFound (name it)], T0, vs0) = (rs, T, vs)"
      by simp
    from Cons.IH [OF this] show ?thesis by simp
  next
    case (Some m)
    with Cons.prems have step: "debtResolve its (rs0, T0 + price m * of_int (qtyOf False it),
          vs0 @ [(keyOf it, m, qtyOf False it)]) = (rs, T, vs)"
      by simp
    from Cons.IH [OF step] show ?thesis by simp
  qed
qed

subsection \<open>Resolving the intent\<close>

lemma explicitPaidOf_items: "explicitPaidOf (p\<lparr>items := x\<rparr>) text = explicitPaidOf p text"
  unfolding explicitPaidOf_def by simp

text \<open>
  C3. A parse of kind sale whose explicit paid amount is known and lies more than 0.01 below
  the positive catalog total of its items becomes a debt; the resolver changes the kind in
  no other case.
\<close>

theorem reclassification_rule:
  "intent (resolveIntent text p) =
     (if intent p = ''sale'' \<and>
         0 < inferTotalFromItems (Some (normalizeAmbiguousItems (items p) text)) \<and>
         (\<exists>e. explicitPaidOf p text = Some e \<and>
              e < inferTotalFromItems (Some (normalizeAmbiguousItems (items p) text)) - 1 / 100)
      then ''debt'' else intent p)"
  unfolding resolveIntent_def Let_def
  by (auto simp: explicitPaidOf_items split: option.splits)

lemma reclass_example_paid: "explicitPaidOf \<lparr>intent = ''sale'', items = Some [\<lparr>name = Some ''espresso'', qty = JNum 1\<rparr>],
               customer = Some ''Ahmed'', paid = JNum 15\<rparr> ''Ahmed got an espresso, paid 15'' = Some 15"
  by code_simp
lemma reclass_example_total: "inferTotalFromItems (Some (normalizeAmbiguousItems (Some [\<lparr>name = Some ''espresso'', qty = JNum 1\<rparr>]) ''Ahmed got an espresso, paid 15'')) = 20"
  by code_simp

lemma reclass_example_reply:
  "snd (onText clkA ''Ahmed got an espresso, paid 15''
     (Some \<lparr>intent = ''sale'', items = Some [\<lparr>name = Some ''espresso'', qty = JNum 1\<rparr>],
            customer = Some ''Ahmed'', paid = JNum 15\<rparr>) (\<lambda>_. None)) =
   [DebtRecorded [(1, ''Espresso'', 20)] 20 15 5 ''Ahmed'']"
  by code_simp

theorem reclassification_rule_witness:
  "intent (resolveIntent ''Ahmed got an espresso, paid 15''
     \<lparr>intent = ''sale'', items = Some [\<lparr>name = Some ''espresso'', qty = JNum 1\<rparr>],
      customer = Some ''Ahmed'', paid = JNum 15\<rparr>) = ''debt'' \<and>
   snd (onText clkA ''Ahmed got an espresso, paid 15''
     (Some \<lparr>intent = ''sale'', items = Some [\<lparr>name = Some ''espresso'', qty = JNum 1\<rparr>],
            customer = Some ''Ahmed'', paid = JNum 15\<rparr>) (\<lambda>_. None)) =
   [DebtRecorded [(1, ''Espresso'', 20)] 20 15 5 ''Ahmed'']"
  using reclassification_rule [of "''Ahmed got an espresso, paid 15''"
     "\<lparr>intent = ''sale'', items = Some [\<lparr>name = Some ''espresso'', qty = JNum 1\<rparr>],
      customer = Some ''Ahmed'', paid = JNum 15\<rparr>"]
  by (simp add: reclass_example_paid reclass_example_total reclass_example_reply)

subsection \<open>Zero-payment phrasing\<close>

text \<open>
  C6 as stated fails: for the text "Sara took a latte, paid nothing" and a parse whose paid
  field is 5, the zero-payment pattern matches and the explicit paid amount is 5: a numeric
  paid value of the parser takes precedence over the text.
\<close>

theorem zero_phrasing_counterexample:
  "rx_test zeroPaidPattern ''Sara took a latte, paid nothing'' \<and>
   explicitPaidOf \<lparr>intent = ''debt'', items = Some [\<lparr>name = Some ''latte'', qty = JNum 1\<rparr>],
                   customer = Some ''Sara'', paid = JNum 5\<rparr>
     ''Sara took a latte, paid nothing'' = Some 5 \<and>
   paid (resolveIntent ''Sara took a latte, paid nothing''
          \<lparr>intent = ''debt'', items = Some [\<lparr>name = Some ''latte'', qty = JNum 1\<rparr>],
           customer = Some ''Sara'', paid = JNum 5\<rparr>) = JNum 5"
  by code_simp

lemma resolveIntent_paid:
  "paid (resolveIntent text p) =
     (case explicitPaidOf p text of None \<Rightarrow> paid p | Some e \<Rightarrow> JNum e)"
  unfolding resolveIntent_def Let_def
  by (auto simp: explicitPaidOf_items split: option.splits)

text \<open>
  C6, as amended. When the text has a "paid nothing" or "no payment" phrasing,
  \<^verbatim>\<open>extractPaidAmount\<close> returns 0; the resolved explicit paid amount, and the paid field
  after resolution, is the parser's paid value when that is numeric and 0 otherwise.
\<close>

theorem zero_phrasing_resolves_zero:
  assumes "rx_test zeroPaidPattern text \<or> rx_test noPaymentPattern text"
  shows "extractPaidAmount text = Some 0 \<and>
         explicitPaidOf p text =
           (case parseNumberOrNull (paid p) of Some v \<Rightarrow> Some v | None \<Rightarrow> Some 0) \<and>
         paid (resolveIntent text p) =
           (case parseNumberOrNull (paid p) of Some v \<Rightarrow> JNum v | None \<Rightarrow> JNum 0)"
proof -
  from assms have e: "extractPaidAmount text = Some 0" by (simp add: extractPaidAmount_def)
  then have x: "explicitPaidOf p text =
           (case parseNumberOrNull (paid p) of Some v \<Rightarrow> Some v | None \<Rightarrow> Some 0)"
    by (simp add: explicitPaidOf_def split: option.splits)
  then have "paid (resolveIntent text p) =
           (case parseNumberOrNull (paid p) of Some v \<Rightarrow> JNum v | None \<Rightarrow> JNum 0)"
    by (simp add: resolveIntent_paid split: option.splits)
  with e x show ?thesis by blast
qed

lemma zero_example_matches:
  "rx_test zeroPaidPattern ''Sara took a coco matcha, paid nothing''"
  by code_simp

lemma no_payment_example_matches:
  "rx_test noPaymentPattern ''Omar had an espresso, no payment''"
  by code_simp

theorem zero_phrasing_resolves_zero_witness:
  "explicitPaidOf \<lparr>intent = ''debt'', items = None, customer = None, paid = JNull\<rparr>
     ''Sara took a coco matcha, paid nothing'' = Some 0 \<and>
   explicitPaidOf \<lparr>intent = ''debt'', items = None, customer = None, paid = JStr ''n/a''\<rparr>
     ''Omar had an espresso, no payment'' = Some 0"
proof -
  have a: "parseNumberOrNull JNull = None" by code_simp
  have b: "parseNumberOrNull (JStr ''n/a'') = None" by code_simp
  from zero_phrasing_resolves_zero [OF disjI1 [OF zero_example_matches],
        of "\<lparr>intent = ''debt'', items = None, customer = None, paid = JNull\<rparr>"]
      zero_phrasing_resolves_zero [OF disjI2 [OF no_payment_example_matches],
        of "\<lparr>intent = ''debt'', items = None, customer = None, paid = JStr ''n/a''\<rparr>"]
  show ?thesis by (simp add: a b)
qed

subsection \<open>Splitting an item over its units\<close>

text \<open>
  C5 as stated fails: three lattes (75) with 50 paid give \<open>itemPaid = 50\<close> and a paid amount
  of 16.67 for each unit, together 50.01, which exceeds \<open>itemPaid\<close>.
\<close>

theorem unit_split_counterexample:
  "debtResolve [\<lparr>name = Some ''latte'', qty = JNum 3\<rparr>] ([], 0, []) =
     ([], 75, [(''latte'', \<lparr>price = 25, category = ''Coffee''\<rparr>, 3)]) \<and>
   itemPaidOf 75 50 (''latte'', \<lparr>price = 25, category = ''Coffee''\<rparr>, 3) = 50 \<and>
   unitPaid 50 3 = 1667 / 100 \<and>
   \<not> (unitPaid 50 3 + unitPaid 50 3 + unitPaid 50 3 \<le>
        itemPaidOf 75 50 (''latte'', \<lparr>price = 25, category = ''Coffee''\<rparr>, 3))"
  by code_simp

text \<open>
  C5, as amended. For a positive quantity the per-unit paid amounts
  \<open>unitPaid = round2 (itemPaid / quantity)\<close> of an item add up to \<open>itemPaid\<close> within half a
  cent per unit, that is within \<open>quantity * 0.005\<close>; the sum may exceed \<open>itemPaid\<close>.
\<close>

theorem unit_split_within_half_cent:
  assumes "0 < q"
  shows "\<bar>of_int q * unitPaid itemPaid q - itemPaid\<bar> \<le> of_int q * (1 / 200)"
proof -
  let ?x = "(itemPaid / of_int q) * 100"
  have q: "(0::rat) < of_int q" using assms by simp
  have up: "unitPaid itemPaid q - itemPaid / of_int q \<le> 1 / 200"
    using jsRound_upper [of ?x] by (simp add: unitPaid_def)
  have lo: "- (1 / 200) \<le> unitPaid itemPaid q - itemPaid / of_int q"
    using jsRound_lower [of ?x] by (simp add: unitPaid_def)
  have eq: "of_int q * unitPaid itemPaid q - itemPaid =
            of_int q * (unitPaid itemPaid q - itemPaid / of_int q)"
    using q by (simp add: algebra_simps)
  have "\<bar>unitPaid itemPaid q - itemPaid / of_int q\<bar> \<le> 1 / 200"
    using up lo by linarith
  then have "of_int q * \<bar>unitPaid itemPaid q - itemPaid / of_int q\<bar> \<le> of_int q * (1 / 200)"
    using q by (simp only: mult_le_cancel_left_pos)
  then show ?thesis
    using q by (simp only: eq abs_mult abs_of_pos)
qed

theorem unit_split_within_half_cent_witness:
  "\<bar>3 * unitPaid 50 3 - 50\<bar> \<le> 3 * (1 / 200 :: rat)"
  using unit_split_within_half_cent [of 3 50] by simp

subsection \<open>The sheets after a write, and the overpayment guard\<close>

lemma sheetContents_ensure: "sheetContents (ensureSheet st n) m = sheetContents st m"
  by (simp add: sheetContents_def ensureSheet_def split: option.splits)

lemma sheetContents_appendRow:
  "sheetContents (appendRow st n r) m =
     (if m = n then sheetContents st n @ [r] else sheetContents st m)"
  by (simp add: sheetContents_def appendRow_def ensureSheet_def Let_def split: option.splits)

lemma sheetContents_getSheetData:
  "sheetContents (fst (getSheetData st n)) m = sheetContents st m"
  "snd (getSheetData st n) = sheetContents st n"
  by (simp_all add: sheetContents_def getSheetData_def ensureSheet_def Let_def split: option.splits)

lemma sheetContents_updateSummary:
  "m \<noteq> SHEET_SUMMARY \<Longrightarrow> sheetContents (updateSummary clk st) m = sheetContents st m"
  by (cases m)
     (simp_all add: sheetContents_def updateSummary_def getSheetData_def ensureSheet_def Let_def
        split: option.splits)

lemma sheetContents_appendTimes:
  "sheetContents (appendTimes k st n r) m =
     (if m = n then sheetContents st n @ replicate k r else sheetContents st m)"
proof (induction k arbitrary: st)
  case 0
  then show ?case by simp
next
  case (Suc k)
  then show ?case
    by (simp add: sheetContents_appendRow replicate_app_Cons_same)
qed

lemma saleLoop_debts:
  "saleLoop clk its (st, rs, lines, t) = (st', rs', lines', t') \<Longrightarrow>
   sheetContents st' SHEET_DEBT = sheetContents st SHEET_DEBT"
proof (induction its arbitrary: st rs lines t)
  case Nil
  then show ?case by auto
next
  case (Cons it its)
  show ?case
  proof (cases "MENU (keyOf it)")
    case None
    with Cons.prems have "saleLoop clk its (st, rs @ [ItemNotFound (name it)], lines, t) =
        (st', rs', lines', t')" by simp
    from Cons.IH [OF this] show ?thesis .
  next
    case (Some m)
    let ?st1 = "appendTimes (nat (qtyOf False it)) st SHEET_SALES (saleRow clk (keyOf it) m)"
    from Some Cons.prems have "saleLoop clk its
        (?st1, rs,
         lines @ [(qtyOf False it, capitalize (keyOf it), price m * of_int (qtyOf False it))],
         t + price m * of_int (qtyOf False it)) = (st', rs', lines', t')" by simp
    from Cons.IH [OF this] show ?thesis
      by (simp add: sheetContents_appendTimes)
  qed
qed

lemma noItems_itemsOf: "noItems p \<Longrightarrow> itemsOf p = []"
  by (auto simp: noItems_def itemsOf_def split: option.splits)

text \<open>
  C2. A debt request whose paid amount exceeds the total price of its resolved items leaves
  the store as it was, so that no row is written to the Sales or to the Debts sheet, and it
  is answered: when an item resolved, the replies end with the rejection that names the paid
  amount and the total.
\<close>

theorem overpayment_rejected:
  assumes res: "debtResolve (itemsOf p) ([], 0, []) = (rs, totalItemPrice, validItems)"
    and over: "totalItemPrice < totalPaidOf p"
  shows "fst (debtPath clk p st) = st \<and> snd (debtPath clk p st) \<noteq> [] \<and>
         (validItems \<noteq> [] \<longrightarrow>
            snd (debtPath clk p st) = rs @ [PaidExceeds (totalPaidOf p) totalItemPrice])"
proof (cases "noItems p")
  case True
  with res have "validItems = []" by (simp add: noItems_itemsOf)
  with True show ?thesis by (simp add: debtPath_def)
next
  case False
  then have ne: "itemsOf p \<noteq> []"
    by (auto simp: noItems_def itemsOf_def split: option.splits)
  from debtResolve_length [OF res] have "length rs + length validItems = length (itemsOf p)"
    by simp
  with ne have "validItems = [] \<Longrightarrow> rs \<noteq> []" by auto
  with False res over show ?thesis by (auto simp: debtPath_def)
qed

lemma overpaid_example_resolve:
  "debtResolve (itemsOf overpaidLatte) ([], 0, []) =
     ([], 25, [(''latte'', \<lparr>price = 25, category = ''Coffee''\<rparr>, 1)])"
  by code_simp

lemma overpaid_example_paid: "totalPaidOf overpaidLatte = 30"
  by code_simp

theorem overpayment_rejected_witness:
  "snd (debtPath clkA overpaidLatte (\<lambda>_. None)) = [PaidExceeds 30 25] \<and>
   fst (debtPath clkA overpaidLatte (\<lambda>_. None)) SHEET_SALES = None \<and>
   fst (debtPath clkA overpaidLatte (\<lambda>_. None)) SHEET_DEBT = None"
proof -
  have "(25::rat) < totalPaidOf overpaidLatte" by (simp add: overpaid_example_paid)
  from overpayment_rejected [OF overpaid_example_resolve this, of clkA "\<lambda>_. None"]
  show ?thesis by (simp add: overpaid_example_paid)
qed

subsection \<open>The summary\<close>

lemma summary_sheet:
  "sheetContents (updateSummary clk st) SHEET_SUMMARY =
     summaryRows clk (sheetContents st SHEET_SALES) (sheetContents st SHEET_DEBT)"
  by (simp add: sheetContents_def updateSummary_def getSheetData_def ensureSheet_def Let_def
      split: option.splits)

lemma summaryRows_clock:
  "today clk2 = today clk1 \<Longrightarrow>
   summaryRows clk2 sales debts =
     (summaryRows clk1 sales debts)[1 := [CStr ''Last Updated'', CStr (localeNow clk2)]]"
  by (simp add: summaryRows_def Let_def)

text \<open>
  C9 as stated fails: two calls with no write in between, one second apart, write different
  snapshots, since the row "Last Updated" holds the time of the call.
\<close>

theorem summary_twice_counterexample:
  "sheetContents (updateSummary clkA (\<lambda>_. None)) SHEET_SUMMARY ! 1 =
     [CStr ''Last Updated'', CStr ''11/3/2026, 10:00:00 AM''] \<and>
   sheetContents (updateSummary clkB (updateSummary clkA (\<lambda>_. None))) SHEET_SUMMARY ! 1 =
     [CStr ''Last Updated'', CStr ''11/3/2026, 10:00:01 AM''] \<and>
   sheetContents (updateSummary clkB (updateSummary clkA (\<lambda>_. None))) SHEET_SUMMARY \<noteq>
   sheetContents (updateSummary clkA (\<lambda>_. None)) SHEET_SUMMARY"
  by code_simp

text \<open>
  C9, as amended. Calling the summary twice on the same calendar date, with no write to the
  Sales or Debts sheets in between, yields the same snapshot except for the value of the row
  "Last Updated", which is the time of the call; the call itself leaves what the Sales and
  Debts sheets hold unchanged.
\<close>

theorem summary_twice_same_day:
  assumes "today clk2 = today clk1"
  shows "sheetContents (updateSummary clk2 (updateSummary clk1 st)) SHEET_SUMMARY =
           (sheetContents (updateSummary clk1 st) SHEET_SUMMARY)
             [1 := [CStr ''Last Updated'', CStr (localeNow clk2)]] \<and>
         sheetContents (updateSummary clk1 st) SHEET_SALES = sheetContents st SHEET_SALES \<and>
         sheetContents (updateSummary clk1 st) SHEET_DEBT = sheetContents st SHEET_DEBT"
  using summaryRows_clock [OF assms]
  by (simp add: summary_sheet sheetContents_updateSummary)

theorem summary_twice_same_day_witness:
  "sheetContents (updateSummary clkB (updateSummary clkA (\<lambda>_. None))) SHEET_SUMMARY =
     (sheetContents (updateSummary clkA (\<lambda>_. None)) SHEET_SUMMARY)
       [1 := [CStr ''Last Updated'', CStr ''11/3/2026, 10:00:01 AM'']] \<and>
   sheetContents (updateSummary clkA (updateSummary clkA (\<lambda>_. None))) SHEET_SUMMARY =
     sheetContents (updateSummary clkA (\<lambda>_. None)) SHEET_SUMMARY"
proof -
  have t: "today clkB = today clkA" by (simp add: clkA_def clkB_def)
  have l: "localeNow clkB = ''11/3/2026, 10:00:01 AM''" by (simp add: clkB_def)
  have r: "(sheetContents (updateSummary clkA (\<lambda>_. None)) SHEET_SUMMARY)
             [1 := [CStr ''Last Updated'', CStr (localeNow clkA)]] =
           sheetContents (updateSummary clkA (\<lambda>_. None)) SHEET_SUMMARY"
    by (simp add: summary_sheet summaryRows_def Let_def)
  from summary_twice_same_day [OF t, of "\<lambda>_. None"] summary_twice_same_day [OF refl, of clkA "\<lambda>_. None"]
  show ?thesis by (simp only: l r)
qed

subsection \<open>Settlement\<close>

lemma updateCell_pair:
  assumes "st SHEET_DEBT = Some t" and "i < length t"
  shows "updateCell (updateCell st SHEET_DEBT (i + 1) 7 a) SHEET_DEBT (i + 1) 8 b =
         st(SHEET_DEBT \<mapsto> t[i := setCell (setCell (t ! i) 6 a) 7 b])"
  using assms by (simp add: updateCell_def setCellAt_def)

lemma settleLoop_table:
  "st SHEET_DEBT = Some t \<Longrightarrow> drop i t = rows \<Longrightarrow> i \<le> length t \<Longrightarrow>
   settleLoop clk nm amount i rows (st, s) =
     (st(SHEET_DEBT \<mapsto> take i t @ firstFitSettle clk nm amount s rows),
      firstFitTotal nm amount s rows)"
proof (induction rows arbitrary: i st t s)
  case Nil
  then have "take i t = t" by simp
  with Nil show ?case by (simp add: fun_upd_idem)
next
  case (Cons r rows)
  from Cons.prems(2) have i: "i < length t"
    by (metis drop_all list.distinct(1) not_le)
  from Cons.prems(2) i have r: "t ! i = r"
    by (metis Cons_nth_drop_Suc list.inject)
  from Cons.prems(2) i have d: "drop (Suc i) t = rows"
    by (metis Cons_nth_drop_Suc list.inject)
  show ?case
  proof (cases "rowMatches nm r \<and> fits amount s r")
    case False
    then have e1: "settleLoop clk nm amount i (r # rows) (st, s) =
                   settleLoop clk nm amount (Suc i) rows (st, s)"
      by (simp only: settleLoop.simps if_False)
    from False have e2: "firstFitSettle clk nm amount s (r # rows) =
                   r # firstFitSettle clk nm amount s rows"
      by (simp only: firstFitSettle.simps if_False)
    from False have e3: "firstFitTotal nm amount s (r # rows) = firstFitTotal nm amount s rows"
      by (simp only: firstFitTotal.simps if_False)
    have tk: "take (Suc i) t = take i t @ [r]"
      using i r by (simp add: take_Suc_conv_app_nth)
    have l: "Suc i \<le> length t" using i by simp
    from Cons.IH [where st = st and t = t and i = "Suc i" and s = s, OF Cons.prems(1) d l]
    show ?thesis by (simp only: e1 e2 e3 tk append_assoc append_Cons append_Nil)
  next
    case True
    then have e1: "settleLoop clk nm amount i (r # rows) (st, s) =
        settleLoop clk nm amount (Suc i) rows
          (updateCell (updateCell st SHEET_DEBT (i + 1) 7 (CStr ''Settled''))
             SHEET_DEBT (i + 1) 8 (CStr (today clk)), jadd s (rowOwed r))"
      by (simp only: settleLoop.simps if_True simp_thms)
    from True have e2: "firstFitSettle clk nm amount s (r # rows) =
        markSettled clk r # firstFitSettle clk nm amount (jadd s (rowOwed r)) rows"
      by (simp only: firstFitSettle.simps if_True simp_thms)
    from True have e3: "firstFitTotal nm amount s (r # rows) =
        firstFitTotal nm amount (jadd s (rowOwed r)) rows"
      by (simp only: firstFitTotal.simps if_True simp_thms)
    let ?t' = "t[i := markSettled clk r]"
    let ?st' = "st(SHEET_DEBT \<mapsto> ?t')"
    have upd: "updateCell (updateCell st SHEET_DEBT (i + 1) 7 (CStr ''Settled''))
                 SHEET_DEBT (i + 1) 8 (CStr (today clk)) = ?st'"
      using updateCell_pair [where st = st and t = t and i = i, OF Cons.prems(1) i] r
      by (simp add: markSettled_def)
    have s': "?st' SHEET_DEBT = Some ?t'" by simp
    have d': "drop (Suc i) ?t' = rows" using d by simp
    have l': "Suc i \<le> length ?t'" using i by simp
    have tk: "take (Suc i) ?t' = take i t @ [markSettled clk r]"
      using i by (simp add: take_Suc_conv_app_nth)
    have ov: "?st'(SHEET_DEBT \<mapsto> x) = st(SHEET_DEBT \<mapsto> x)" for x by simp
    from Cons.IH [where st = ?st' and t = ?t' and i = "Suc i" and s = "jadd s (rowOwed r)",
          OF s' d' l']
    show ?thesis by (simp only: e1 e2 e3 upd tk ov append_assoc append_Cons append_Nil)
  qed
qed

lemma sheetContents_upd: "sheetContents (st(n \<mapsto> x)) n = x"
  by (simp add: sheetContents_def)

lemma settleFor_effect:
  "sheetContents (fst (settleFor clk nm amount st)) SHEET_DEBT =
     take 1 (sheetContents st SHEET_DEBT) @
     firstFitSettle clk nm amount (Fin 0) (drop 1 (sheetContents st SHEET_DEBT))"
  "snd (settleFor clk nm amount st) =
     (if firstFitTotal nm amount (Fin 0) (drop 1 (sheetContents st SHEET_DEBT)) = Fin 0
      then [NoPendingDebts nm]
      else [SettledFor (jsScale (jsRoundNum (jsScale
              (firstFitTotal nm amount (Fin 0) (drop 1 (sheetContents st SHEET_DEBT))) 100))
              (1 / 100)) nm])"
proof -
  let ?data = "sheetContents st SHEET_DEBT"
  let ?st1 = "ensureSheet st SHEET_DEBT"
  have g: "getSheetData st SHEET_DEBT = (?st1, ?data)"
    by (simp add: getSheetData_def sheetContents_def ensureSheet_def Let_def split: option.splits)
  have s1: "?st1 SHEET_DEBT = Some ?data"
    by (simp add: sheetContents_def ensureSheet_def split: option.splits)
  have loop: "settleLoop clk nm amount 1 (drop 1 ?data) (?st1, Fin 0) =
      (?st1(SHEET_DEBT \<mapsto> take 1 ?data @ firstFitSettle clk nm amount (Fin 0) (drop 1 ?data)),
       firstFitTotal nm amount (Fin 0) (drop 1 ?data))"
  proof (cases "?data = []")
    case True
    then show ?thesis using s1 by (simp add: fun_upd_idem)
  next
    case False
    then have "1 \<le> length ?data" by (cases ?data) simp_all
    from settleLoop_table [where st = ?st1 and t = ?data and i = 1 and rows = "drop 1 ?data",
          OF s1 refl this]
    show ?thesis .
  qed
  show "sheetContents (fst (settleFor clk nm amount st)) SHEET_DEBT =
     take 1 ?data @ firstFitSettle clk nm amount (Fin 0) (drop 1 ?data)"
    unfolding settleFor_def g prod.case loop
    by (simp add: sheetContents_updateSummary sheetContents_upd del: One_nat_def)
  show "snd (settleFor clk nm amount st) =
     (if firstFitTotal nm amount (Fin 0) (drop 1 ?data) = Fin 0
      then [NoPendingDebts nm]
      else [SettledFor (jsScale (jsRoundNum (jsScale
              (firstFitTotal nm amount (Fin 0) (drop 1 ?data)) 100)) (1 / 100)) nm])"
    unfolding settleFor_def g prod.case loop by simp
qed

lemma firstFitSettle_length: "length (firstFitSettle clk nm cap s rows) = length rows"
  by (induction rows arbitrary: s) simp_all

lemma firstFitSettle_nth:
  "k < length rows \<Longrightarrow>
   firstFitSettle clk nm cap s rows ! k =
     (if rowMatches nm (rows ! k) \<and> fits cap (firstFitTotal nm cap s (take k rows)) (rows ! k)
      then markSettled clk (rows ! k) else rows ! k)"
proof (induction rows arbitrary: k s)
  case Nil
  then show ?case by simp
next
  case (Cons r rows)
  show ?case
  proof (cases k)
    case 0
    then show ?thesis by simp
  next
    case (Suc j)
    with Cons.prems have j: "j < length rows" by simp
    show ?thesis
    proof (cases "rowMatches nm r \<and> fits cap s r")
      case True
      then have e: "firstFitSettle clk nm cap s (r # rows) =
            markSettled clk r # firstFitSettle clk nm cap (jadd s (rowOwed r)) rows"
        "firstFitTotal nm cap s (take (Suc j) (r # rows)) =
            firstFitTotal nm cap (jadd s (rowOwed r)) (take j rows)"
        by (simp_all only: take_Suc_Cons firstFitSettle.simps firstFitTotal.simps if_True simp_thms)
      from Cons.IH [OF j, of "jadd s (rowOwed r)"] show ?thesis
        by (simp only: Suc e nth_Cons_Suc)
    next
      case False
      then have e: "firstFitSettle clk nm cap s (r # rows) =
            r # firstFitSettle clk nm cap s rows"
        "firstFitTotal nm cap s (take (Suc j) (r # rows)) =
            firstFitTotal nm cap s (take j rows)"
        by (simp_all only: take_Suc_Cons firstFitSettle.simps firstFitTotal.simps if_False)
      from Cons.IH [OF j, of s] show ?thesis
        by (simp only: Suc e nth_Cons_Suc)
    qed
  qed
qed

lemma example_command:
  "statusColumn (fst (settleCommand clkA ''/settle X 14'' debts1086)) =
     [Some (CStr ''Settled''), Some (CStr ''Pending''), Some (CStr ''Pending'')] \<and>
   snd (settleCommand clkA ''/settle X 14'' debts1086) = [SettledFor (Fin 10) ''X'']"
  by code_simp

lemma example_text:
  "statusColumn (fst (onText clkA ''x settles 14''
       (Some \<lparr>intent = ''settle'', items = None, customer = Some ''x'', paid = JNum 14\<rparr>)
       debts1086)) =
     [Some (CStr ''Settled''), Some (CStr ''Pending''), Some (CStr ''Pending'')] \<and>
   snd (onText clkA ''x settles 14''
       (Some \<lparr>intent = ''settle'', items = None, customer = Some ''x'', paid = JNum 14\<rparr>)
       debts1086) = [SettledFor (Fin 10) ''x'']"
  by code_simp

lemma markSettled_status: "cellAt (markSettled clk r) 6 = Some (CStr ''Settled'')"
  by (auto simp: markSettled_def setCell_def cellAt_def nth_append)

lemma markSettled_changes: "rowMatches nm r \<Longrightarrow> markSettled clk r \<noteq> r"
proof
  assume m: "rowMatches nm r" and e: "markSettled clk r = r"
  from m have "cellAt r 6 = Some (CStr ''Pending'')" by (simp add: rowMatches_def)
  moreover have "cellAt r 6 = Some (CStr ''Settled'')"
    using markSettled_status [of clk r] by (simp only: e)
  ultimately show False by simp
qed

lemma firstFitSettle_take:
  "take k (firstFitSettle clk nm cap s rows) = firstFitSettle clk nm cap s (take k rows)"
proof (induction rows arbitrary: k s)
  case Nil
  then show ?case by simp
next
  case (Cons r rows)
  then show ?case by (cases k) simp_all
qed

lemma settledAmount_firstFit:
  "settledAmount s rows (firstFitSettle clk nm cap s rows) = firstFitTotal nm cap s rows"
proof (induction rows arbitrary: s)
  case Nil
  then show ?case by simp
next
  case (Cons r rows)
  show ?case
  proof (cases "rowMatches nm r \<and> fits cap s r")
    case True
    then have "rowMatches nm r" by (rule conjunct1)
    then have "markSettled clk r \<noteq> r" by (rule markSettled_changes)
    with True Cons.IH [of "jadd s (rowOwed r)"] show ?thesis by simp
  next
    case False
    with Cons.IH [of s] show ?thesis by auto
  qed
qed

text \<open>
  C4. Settlement (the command and the text branch run the same loop) keeps the header, the
  number of rows and their order. A row that the run changes is marked settled, it was a
  pending row of the customer, names compared without case, and either no cap was given or
  the amount settled on the rows before it, in stored order, plus its owed amount is at most
  the cap plus 0.01; every other row stays as it is. For pending debts of 10, 8 and 6, in
  that order, and a cap of 14, only the row of 10 is settled and the amount settled is 10, on
  the command and on the text branch.
\<close>

theorem settles_only_within_cap:
  "(let rows = drop 1 (sheetContents st SHEET_DEBT);
        res = drop 1 (sheetContents (fst (settleFor clk nm cap st)) SHEET_DEBT)
    in take 1 (sheetContents (fst (settleFor clk nm cap st)) SHEET_DEBT) =
         take 1 (sheetContents st SHEET_DEBT) \<and>
       length res = length rows \<and>
       (\<forall>k < length rows.
          res ! k = rows ! k \<or>
          (res ! k = markSettled clk (rows ! k) \<and> rowMatches nm (rows ! k) \<and>
           (cap = None \<or>
            (\<exists>a. cap = Some a \<and>
                 jle (jadd (settledAmount (Fin 0) (take k rows) (take k res))
                           (rowOwed (rows ! k)))
                     (jadd a (Fin (1 / 100)))))))) \<and>
   statusColumn (fst (settleCommand clkA ''/settle X 14'' debts1086)) =
     [Some (CStr ''Settled''), Some (CStr ''Pending''), Some (CStr ''Pending'')] \<and>
   snd (settleCommand clkA ''/settle X 14'' debts1086) = [SettledFor (Fin 10) ''X''] \<and>
   statusColumn (fst (onText clkA ''x settles 14''
       (Some \<lparr>intent = ''settle'', items = None, customer = Some ''x'', paid = JNum 14\<rparr>)
       debts1086)) =
     [Some (CStr ''Settled''), Some (CStr ''Pending''), Some (CStr ''Pending'')] \<and>
   snd (onText clkA ''x settles 14''
       (Some \<lparr>intent = ''settle'', items = None, customer = Some ''x'', paid = JNum 14\<rparr>)
       debts1086) = [SettledFor (Fin 10) ''x'']"
proof -
  let ?data = "sheetContents st SHEET_DEBT"
  let ?rows = "drop 1 ?data"
  let ?out = "sheetContents (fst (settleFor clk nm cap st)) SHEET_DEBT"
  let ?res = "drop 1 ?out"
  have out: "?out = take 1 ?data @ firstFitSettle clk nm cap (Fin 0) ?rows"
    by (rule settleFor_effect(1))
  have hd: "take 1 ?out = take 1 ?data"
    by (cases ?data) (simp_all add: out)
  have tl: "?res = firstFitSettle clk nm cap (Fin 0) ?rows"
    by (cases ?data) (simp_all add: out)
  have len: "length ?res = length ?rows"
    by (simp only: tl firstFitSettle_length)
  have nth: "\<forall>k < length ?rows.
          ?res ! k = ?rows ! k \<or>
          (?res ! k = markSettled clk (?rows ! k) \<and> rowMatches nm (?rows ! k) \<and>
           (cap = None \<or>
            (\<exists>a. cap = Some a \<and>
                 jle (jadd (settledAmount (Fin 0) (take k ?rows) (take k ?res))
                           (rowOwed (?rows ! k)))
                     (jadd a (Fin (1 / 100))))))"
  proof (intro allI impI)
    fix k
    assume k: "k < length ?rows"
    let ?run = "firstFitTotal nm cap (Fin 0) (take k ?rows)"
    have run: "settledAmount (Fin 0) (take k ?rows) (take k ?res) = ?run"
      by (simp only: tl firstFitSettle_take settledAmount_firstFit)
    have row: "?res ! k =
            (if rowMatches nm (?rows ! k) \<and> fits cap ?run (?rows ! k)
             then markSettled clk (?rows ! k) else ?rows ! k)"
      using firstFitSettle_nth [OF k] by (simp only: tl)
    show "?res ! k = ?rows ! k \<or>
          (?res ! k = markSettled clk (?rows ! k) \<and> rowMatches nm (?rows ! k) \<and>
           (cap = None \<or>
            (\<exists>a. cap = Some a \<and>
                 jle (jadd (settledAmount (Fin 0) (take k ?rows) (take k ?res))
                           (rowOwed (?rows ! k)))
                     (jadd a (Fin (1 / 100))))))"
    proof (cases "rowMatches nm (?rows ! k) \<and> fits cap ?run (?rows ! k)")
      case False
      with row have "?res ! k = ?rows ! k" by (simp only: if_False)
      then show ?thesis by (rule disjI1)
    next
      case True
      with row have m: "?res ! k = markSettled clk (?rows ! k)"
        by (simp only: if_True simp_thms)
      from True have f: "cap = None \<or>
            (\<exists>a. cap = Some a \<and> jle (jadd ?run (rowOwed (?rows ! k))) (jadd a (Fin (1 / 100))))"
        by (cases cap) (simp_all add: fits_def)
      from True m f show ?thesis by (simp only: run simp_thms)
    qed
  qed
  from hd len nth example_command example_text show ?thesis
    by (simp only: Let_def)
qed

lemma example_rows:
  "drop 1 (sheetContents debts1086 SHEET_DEBT) = [debtOf ''X'' 10, debtOf ''X'' 8, debtOf ''X'' 6]"
  by (simp add: debts1086_def sheetContents_def)

lemma example_first_row:
  "drop 1 (sheetContents (fst (settleFor clkA ''X'' (Some (Fin 14)) debts1086)) SHEET_DEBT) ! 0 \<noteq>
     debtOf ''X'' 10"
  by code_simp


theorem settles_only_within_cap_witness:
  "rowMatches ''X'' (debtOf ''X'' 10) \<and>
   jle (jadd (settledAmount (Fin 0) [] []) (rowOwed (debtOf ''X'' 10)))
       (jadd (Fin 14) (Fin (1 / 100)))"
proof -
  let ?rows = "drop 1 (sheetContents debts1086 SHEET_DEBT)"
  let ?res = "drop 1 (sheetContents (fst (settleFor clkA ''X'' (Some (Fin 14)) debts1086)) SHEET_DEBT)"
  note t = settles_only_within_cap [of debts1086 clkA "''X''" "Some (Fin 14)", unfolded Let_def]
  have len: "0 < length ?rows" by (simp only: example_rows) simp
  have r0: "?rows ! 0 = debtOf ''X'' 10" by (simp only: example_rows) simp
  from t have "\<forall>k < length ?rows.
          ?res ! k = ?rows ! k \<or>
          (?res ! k = markSettled clkA (?rows ! k) \<and> rowMatches ''X'' (?rows ! k) \<and>
           (Some (Fin 14) = None \<or>
            (\<exists>a. Some (Fin 14) = Some a \<and>
                 jle (jadd (settledAmount (Fin 0) (take k ?rows) (take k ?res))
                           (rowOwed (?rows ! k)))
                     (jadd a (Fin (1 / 100))))))"
    by (elim conjE)
  from this [rule_format, OF len]
  have d: "?res ! 0 = debtOf ''X'' 10 \<or>
          (?res ! 0 = markSettled clkA (debtOf ''X'' 10) \<and> rowMatches ''X'' (debtOf ''X'' 10) \<and>
           (Some (Fin 14) = (None :: jsnum option) \<or>
            (\<exists>a. Some (Fin 14) = Some a \<and>
                 jle (jadd (settledAmount (Fin 0) [] []) (rowOwed (debtOf ''X'' 10)))
                     (jadd a (Fin (1 / 100))))))"
    by (simp only: r0 take_0)
  from d example_first_row
  have m: "rowMatches ''X'' (debtOf ''X'' 10)"
    and e: "\<exists>a. Some (Fin 14) = Some a \<and>
                 jle (jadd (settledAmount (Fin 0) [] []) (rowOwed (debtOf ''X'' 10)))
                     (jadd a (Fin (1 / 100)))"
    by blast+
  from e obtain a where "Some (Fin 14) = Some a"
    and j: "jle (jadd (settledAmount (Fin 0) [] []) (rowOwed (debtOf ''X'' 10)))
                     (jadd a (Fin (1 / 100)))" by blast
  then have "a = Fin 14" by simp
  with j m show ?thesis by (simp only: simp_thms)
qed

lemma firstFitSettle_uncapped:
  "firstFitSettle clk nm None s rows =
     map (\<lambda>r. if rowMatches nm r then markSettled clk r else r) rows"
  by (induction rows arbitrary: s) (simp_all add: fits_def)

lemma owed_cases:
  "jle (Fin 0) (rowOwed r) \<Longrightarrow> rowOwed r = PosInf \<or> (\<exists>w. rowOwed r = Fin w \<and> 0 \<le> w)"
  by (cases "rowOwed r") simp_all

lemma fits_finite:
  assumes "jle (Fin 0) (rowOwed r)" and "fits (Some (Fin c)) (Fin x) r"
  shows "\<exists>w. rowOwed r = Fin w \<and> 0 \<le> w \<and> x + w \<le> c + 1 / 100"
proof -
  from owed_cases [OF assms(1)] show ?thesis
  proof
    assume "rowOwed r = PosInf"
    with assms(2) show ?thesis by (simp add: fits_def)
  next
    assume "\<exists>w. rowOwed r = Fin w \<and> 0 \<le> w"
    then obtain w where "rowOwed r = Fin w" "0 \<le> w" by blast
    with assms(2) show ?thesis by (simp add: fits_def)
  qed
qed

lemma firstFitTotal_nonneg:
  "list_all (\<lambda>r. jle (Fin 0) (rowOwed r)) rows \<Longrightarrow> 0 \<le> x \<Longrightarrow>
   \<exists>y. firstFitTotal nm (Some (Fin c)) (Fin x) rows = Fin y \<and> 0 \<le> y"
proof (induction rows arbitrary: x)
  case Nil
  then show ?case by simp
next
  case (Cons r rows)
  from Cons.prems have r: "jle (Fin 0) (rowOwed r)"
    and rest: "list_all (\<lambda>r. jle (Fin 0) (rowOwed r)) rows" by simp_all
  show ?case
  proof (cases "rowMatches nm r \<and> fits (Some (Fin c)) (Fin x) r")
    case True
    then have f: "fits (Some (Fin c)) (Fin x) r" by simp
    from fits_finite [OF r f] obtain w where w: "rowOwed r = Fin w" "0 \<le> w" by blast
    from True have "firstFitTotal nm (Some (Fin c)) (Fin x) (r # rows) =
        firstFitTotal nm (Some (Fin c)) (jadd (Fin x) (rowOwed r)) rows"
      by (simp only: firstFitTotal.simps if_True simp_thms)
    also have "\<dots> = firstFitTotal nm (Some (Fin c)) (Fin (x + w)) rows" by (simp add: w)
    finally show ?thesis using Cons.IH [OF rest, of "x + w"] Cons.prems(2) w(2) by simp
  next
    case False
    then have "firstFitTotal nm (Some (Fin c)) (Fin x) (r # rows) =
        firstFitTotal nm (Some (Fin c)) (Fin x) rows"
      by (simp only: firstFitTotal.simps if_False)
    then show ?thesis using Cons.IH [OF rest Cons.prems(2)] by simp
  qed
qed

lemma zero_cap_small:
  assumes nonneg: "list_all (\<lambda>r. jle (Fin 0) (rowOwed r)) rows"
    and k: "k < length rows"
    and f: "fits (Some (Fin 0)) (firstFitTotal nm (Some (Fin 0)) (Fin 0) (take k rows)) (rows ! k)"
  shows "jle (rowOwed (rows ! k)) (Fin (1 / 100))"
proof -
  from nonneg have pre: "list_all (\<lambda>r. jle (Fin 0) (rowOwed r)) (take k rows)"
    by (auto simp: list_all_iff dest: in_set_takeD)
  from firstFitTotal_nonneg [OF pre, of 0 nm 0]
  obtain y where y: "firstFitTotal nm (Some (Fin 0)) (Fin 0) (take k rows) = Fin y" "0 \<le> y"
    by auto
  from nonneg k have rk: "jle (Fin 0) (rowOwed (rows ! k))" by (simp add: list_all_length)
  from f y(1) have "fits (Some (Fin 0)) (Fin y) (rows ! k)" by simp
  from fits_finite [OF rk this] obtain w where "rowOwed (rows ! k) = Fin w" "y + w \<le> 0 + 1 / 100"
    by blast
  with y(2) show ?thesis by simp
qed

lemma zero_command_args: "settleArgs ''/settle Ahmed 0'' = (''Ahmed'', Some (Fin 0))"
  by code_simp

text \<open>
  The handlers keep the owed amounts of the Debts sheet non-negative: the debt branch
  writes a debt row only for a positive owed amount, and settlement leaves the amount of a
  row as it is.
\<close>

lemma header_owed: "jle (Fin 0) (rowOwed (headers SHEET_DEBT))"
  by code_simp

lemma owedNonneg_empty: "owedNonneg (\<lambda>_. None)"
  by (simp add: owedNonneg_def sheetContents_def header_owed)

lemma debtRow_owed:
  "0 < unitOwed (fst (snd v)) (unitPaid ip (snd (snd v))) \<Longrightarrow>
   jle (Fin 0) (rowOwed (debtRow clk cust v ip))"
  by (cases v)
     (simp add: debtRow_def rowOwed_def cellAt_def parseFloatCell_def orZero_def falsyNum_def)

lemma debtUnits_debts:
  "owedNonneg st \<Longrightarrow> owedNonneg (debtUnits k clk cust v ip st)"
proof (induction k arbitrary: st)
  case 0
  then show ?case by simp
next
  case (Suc k)
  let ?st1 = "appendRow st SHEET_SALES (debtSaleRow clk cust v ip)"
  have s1: "owedNonneg ?st1"
    using Suc.prems by (simp add: owedNonneg_def sheetContents_appendRow)
  show ?case
  proof (cases "0 < unitOwed (fst (snd v)) (unitPaid ip (snd (snd v)))")
    case True
    with s1 have "owedNonneg (appendRow ?st1 SHEET_DEBT (debtRow clk cust v ip))"
      by (simp add: owedNonneg_def sheetContents_appendRow debtRow_owed)
    from Suc.IH [OF this] True show ?thesis by (simp add: Let_def)
  next
    case False
    from Suc.IH [OF s1] False show ?thesis by (simp add: Let_def)
  qed
qed

lemma debtLoop_debts:
  "debtLoop clk cust T P vs (st, lines, owed) = (st', lines', owed') \<Longrightarrow>
   owedNonneg st \<Longrightarrow> owedNonneg st'"
proof (induction vs arbitrary: st lines owed)
  case Nil
  then show ?case by simp
next
  case (Cons v vs)
  from Cons.prems(1) have "debtLoop clk cust T P vs
       (debtUnits (nat (snd (snd v))) clk cust v (itemPaidOf T P v) st,
        lines @ [(snd (snd v), capitalize (fst v), itemTotalOf v)],
        owed + itemOwedOf T P v) = (st', lines', owed')" by simp
  from Cons.IH [OF this debtUnits_debts [OF Cons.prems(2)]] show ?case .
qed

lemma owedNonneg_updateSummary: "owedNonneg st \<Longrightarrow> owedNonneg (updateSummary clk st)"
  by (simp add: owedNonneg_def sheetContents_updateSummary)

lemma salePath_debts: "owedNonneg st \<Longrightarrow> owedNonneg (fst (salePath clk p st))"
proof (cases "noItems p")
  case True
  then show "owedNonneg st \<Longrightarrow> ?thesis" by (simp add: salePath_def)
next
  case False
  assume st: "owedNonneg st"
  obtain st1 rs lines t where loop: "saleLoop clk (itemsOf p) (st, [], [], 0) = (st1, rs, lines, t)"
    by (metis prod_cases4)
  from saleLoop_debts [OF loop] st have "owedNonneg st1" by (simp add: owedNonneg_def)
  with False loop show ?thesis
    by (simp add: salePath_def owedNonneg_updateSummary)
qed

lemma debtPath_debts: "owedNonneg st \<Longrightarrow> owedNonneg (fst (debtPath clk p st))"
proof -
  assume st: "owedNonneg st"
  obtain rs T vs where res: "debtResolve (itemsOf p) ([], 0, []) = (rs, T, vs)"
    by (metis prod_cases3)
  obtain st1 lines owed where loop:
    "debtLoop clk (customerOf p) T (totalPaidOf p) vs (st, [], 0) = (st1, lines, owed)"
    by (metis prod_cases3)
  from debtLoop_debts [OF loop st] have "owedNonneg (updateSummary clk st1)"
    by (rule owedNonneg_updateSummary)
  with st res loop show ?thesis by (simp add: debtPath_def)
qed

lemma markSettled_owed: "rowMatches nm r \<Longrightarrow> rowOwed (markSettled clk r) = rowOwed r"
proof -
  assume "rowMatches nm r"
  then have len: "6 < length r" by (auto simp: rowMatches_def cellAt_def split: if_splits)
  then have "cellAt (markSettled clk r) 5 = cellAt r 5"
    by (auto simp: markSettled_def setCell_def cellAt_def nth_append)
  then show ?thesis by (simp add: rowOwed_def)
qed

lemma firstFitSettle_owed:
  "list_all (\<lambda>r. jle (Fin 0) (rowOwed r)) rows \<Longrightarrow>
   list_all (\<lambda>r. jle (Fin 0) (rowOwed r)) (firstFitSettle clk nm cap s rows)"
  by (induction rows arbitrary: s) (auto simp: markSettled_owed)

lemma settleFor_debts: "owedNonneg st \<Longrightarrow> owedNonneg (fst (settleFor clk nm cap st))"
proof -
  assume "owedNonneg st"
  then have a: "list_all (\<lambda>r. jle (Fin 0) (rowOwed r)) (take 1 (sheetContents st SHEET_DEBT))"
    and b: "list_all (\<lambda>r. jle (Fin 0) (rowOwed r)) (drop 1 (sheetContents st SHEET_DEBT))"
    by (auto simp: owedNonneg_def list_all_iff dest: in_set_takeD in_set_dropD)
  from a firstFitSettle_owed [OF b] show ?thesis
    by (simp only: owedNonneg_def settleFor_effect(1) list_all_append simp_thms)
qed

lemma owed_nonneg_kept:
  "owedNonneg st \<Longrightarrow>
   owedNonneg (fst (onText clk raw groq st)) \<and> owedNonneg (fst (settleCommand clk text st))"
proof -
  assume st: "owedNonneg st"
  have "owedNonneg (fst (settlePath clk p st))" for p
    using st settleFor_debts [OF st] by (simp add: settlePath_def split: option.splits)
  with st salePath_debts [OF st] debtPath_debts [OF st]
  have "owedNonneg (fst (onText clk raw groq st))"
    by (simp add: onText_def Let_def split: option.splits)
  moreover have "owedNonneg (fst (settleCommand clk text st))"
    using st settleFor_debts [OF st] by (simp add: settleCommand_def split: prod.splits)
  ultimately show ?thesis by blast
qed

text \<open>
  C10. On the text branch a paid amount of 0 becomes no cap, and every pending row of the
  customer is settled. The command \<^verbatim>\<open>/settle Ahmed 0\<close> keeps 0 as its cap, and a command with
  cap 0 settles only rows that owe at most 0.01, in a store whose owed amounts are
  non-negative (\<open>owedNonneg\<close>, which the handlers keep).
\<close>

theorem zero_amount_settle_paths:
  "(parseFloat (paid p) = Fin 0 \<and> customer p = Some c \<and> c \<noteq> [] \<longrightarrow>
      capOfPaid (paid p) = None \<and>
      (\<forall>k < length (drop 1 (sheetContents st SHEET_DEBT)).
         rowMatches (trim c) (drop 1 (sheetContents st SHEET_DEBT) ! k) \<longrightarrow>
         cellAt (drop 1 (sheetContents (fst (settlePath clk p st)) SHEET_DEBT) ! k) 6 =
           Some (CStr ''Settled''))) \<and>
   settleArgs ''/settle Ahmed 0'' = (''Ahmed'', Some (Fin 0)) \<and>
   (settleArgs text = (nm, Some (Fin 0)) \<and> nm \<noteq> [] \<and> owedNonneg st \<longrightarrow>
      (\<forall>k < length (drop 1 (sheetContents st SHEET_DEBT)).
         cellAt (drop 1 (sheetContents st SHEET_DEBT) ! k) 6 = Some (CStr ''Pending'') \<and>
         cellAt (drop 1 (sheetContents (fst (settleCommand clk text st)) SHEET_DEBT) ! k) 6 =
           Some (CStr ''Settled'') \<longrightarrow>
         jle (rowOwed (drop 1 (sheetContents st SHEET_DEBT) ! k)) (Fin (1 / 100))))"
proof (intro conjI impI allI)
  assume a: "parseFloat (paid p) = Fin 0 \<and> customer p = Some c \<and> c \<noteq> []"
  then show cap: "capOfPaid (paid p) = None" by (simp add: capOfPaid_def falsyNum_def)
  fix k
  let ?rows = "drop 1 (sheetContents st SHEET_DEBT)"
  assume k: "k < length ?rows" and m: "rowMatches (trim c) (?rows ! k)"
  from a cap have path: "settlePath clk p st = settleFor clk (trim c) None st"
    by (simp add: settlePath_def)
  have "drop 1 (sheetContents (fst (settleFor clk (trim c) None st)) SHEET_DEBT) =
        firstFitSettle clk (trim c) None (Fin 0) ?rows"
    by (cases "sheetContents st SHEET_DEBT") (simp_all add: settleFor_effect(1))
  with k m show "cellAt (drop 1 (sheetContents (fst (settlePath clk p st)) SHEET_DEBT) ! k) 6 =
           Some (CStr ''Settled'')"
    by (simp add: path firstFitSettle_uncapped markSettled_status)
next
  show "settleArgs ''/settle Ahmed 0'' = (''Ahmed'', Some (Fin 0))" by (rule zero_command_args)
next
  fix k
  let ?rows = "drop 1 (sheetContents st SHEET_DEBT)"
  assume a: "settleArgs text = (nm, Some (Fin 0)) \<and> nm \<noteq> [] \<and> owedNonneg st"
    and k: "k < length ?rows"
    and ch: "cellAt (?rows ! k) 6 = Some (CStr ''Pending'') \<and>
         cellAt (drop 1 (sheetContents (fst (settleCommand clk text st)) SHEET_DEBT) ! k) 6 =
           Some (CStr ''Settled'')"
  from a have cmd: "settleCommand clk text st = settleFor clk nm (Some (Fin 0)) st"
    by (simp add: settleCommand_def)
  have out: "drop 1 (sheetContents (fst (settleFor clk nm (Some (Fin 0)) st)) SHEET_DEBT) =
        firstFitSettle clk nm (Some (Fin 0)) (Fin 0) ?rows"
    by (cases "sheetContents st SHEET_DEBT") (simp_all add: settleFor_effect(1))
  have "fits (Some (Fin 0)) (firstFitTotal nm (Some (Fin 0)) (Fin 0) (take k ?rows)) (?rows ! k)"
  proof (rule ccontr)
    assume "\<not> fits (Some (Fin 0)) (firstFitTotal nm (Some (Fin 0)) (Fin 0) (take k ?rows)) (?rows ! k)"
    with firstFitSettle_nth [OF k, of clk nm "Some (Fin 0)" "Fin 0"]
    have same: "firstFitSettle clk nm (Some (Fin 0)) (Fin 0) ?rows ! k = ?rows ! k" by simp
    from ch have "cellAt (firstFitSettle clk nm (Some (Fin 0)) (Fin 0) ?rows ! k) 6 =
           Some (CStr ''Settled'')" by (simp only: cmd out)
    then have "cellAt (?rows ! k) 6 = Some (CStr ''Settled'')" by (simp only: same)
    with ch show False by simp
  qed
  moreover from a have "list_all (\<lambda>r. jle (Fin 0) (rowOwed r)) ?rows"
    by (auto simp: owedNonneg_def list_all_iff dest: in_set_dropD)
  ultimately show "jle (rowOwed (?rows ! k)) (Fin (1 / 100))"
    using k by (intro zero_cap_small) simp_all
qed

lemma zero_example_text:
  "parseFloat (paid settleX0) = Fin 0 \<and> customer settleX0 = Some '' x '' \<and> '' x '' \<noteq> []"
  by code_simp

lemma zero_example_third_row:
  "2 < length (drop 1 (sheetContents debts1086 SHEET_DEBT)) \<and>
   rowMatches (trim '' x '') (drop 1 (sheetContents debts1086 SHEET_DEBT) ! 2)"
  by code_simp

lemma zero_example_command:
  "settleArgs ''/settle Ahmed 0'' = (''Ahmed'', Some (Fin 0)) \<and> ''Ahmed'' \<noteq> [] \<and>
   owedNonneg debtsTiny"
  by code_simp

lemma zero_example_first_row:
  "0 < length (drop 1 (sheetContents debtsTiny SHEET_DEBT)) \<and>
   cellAt (drop 1 (sheetContents debtsTiny SHEET_DEBT) ! 0) 6 = Some (CStr ''Pending'') \<and>
   cellAt (drop 1 (sheetContents (fst (settleCommand clkA ''/settle Ahmed 0'' debtsTiny))
                     SHEET_DEBT) ! 0) 6 = Some (CStr ''Settled'')"
  by code_simp

theorem zero_amount_settle_paths_witness:
  "cellAt (drop 1 (sheetContents (fst (settlePath clkA settleX0 debts1086)) SHEET_DEBT) ! 2) 6 =
     Some (CStr ''Settled'') \<and>
   jle (rowOwed (drop 1 (sheetContents debtsTiny SHEET_DEBT) ! 0)) (Fin (1 / 100))"
proof -
  note t = zero_amount_settle_paths [of settleX0 "'' x ''" debts1086 clkA]
  note u = zero_amount_settle_paths [of _ _ debtsTiny clkA "''/settle Ahmed 0''" "''Ahmed''"]
  from t zero_example_text zero_example_third_row
  have a: "cellAt (drop 1 (sheetContents (fst (settlePath clkA settleX0 debts1086)) SHEET_DEBT) ! 2) 6 =
     Some (CStr ''Settled'')" by blast
  from u zero_example_command zero_example_first_row
  have b: "jle (rowOwed (drop 1 (sheetContents debtsTiny SHEET_DEBT) ! 0)) (Fin (1 / 100))"
    by blast
  from a b show ?thesis by blast
qed

subsection \<open>Ambiguous items\<close>

lemma rx_lit_result:
  "rx_lit w (p, s) =
     (if length w \<le> length s \<and> map lowerAZ (take (length w) s) = map lowerAZ w
      then [(if w = [] then p else Some (s ! (length w - 1)), drop (length w) s)] else [])"
proof (induction w arbitrary: p s)
  case Nil
  then show ?case by simp
next
  case (Cons x xs)
  show ?case
  proof (cases s)
    case Nil
    then show ?thesis by simp
  next
    case (Cons y ys)
    show ?thesis
      unfolding Cons using Cons.IH [of "Some y" ys]
      by (auto simp: nth_Cons')
  qed
qed

lemma rx_test_from_ex:
  "rx_test_from r (p, s) = (\<exists>i \<le> length s. r (cursorAt p s i) \<noteq> [])"
proof (induction s arbitrary: p)
  case Nil
  then show ?case by (simp add: cursorAt_def)
next
  case (Cons y ys)
  have shift: "cursorAt p (y # ys) (Suc i) = cursorAt (Some y) ys i" for i
    by (simp add: cursorAt_def nth_Cons')
  have zero: "cursorAt p (y # ys) 0 = (p, y # ys)" by (simp add: cursorAt_def)
  have "(\<exists>i \<le> length (y # ys). r (cursorAt p (y # ys) i) \<noteq> []) =
        (r (cursorAt p (y # ys) 0) \<noteq> [] \<or>
         (\<exists>i \<le> length ys. r (cursorAt p (y # ys) (Suc i)) \<noteq> []))"
  proof
    assume "\<exists>i \<le> length (y # ys). r (cursorAt p (y # ys) i) \<noteq> []"
    then obtain i where i: "i \<le> length (y # ys)" "r (cursorAt p (y # ys) i) \<noteq> []" by blast
    show "r (cursorAt p (y # ys) 0) \<noteq> [] \<or>
         (\<exists>i \<le> length ys. r (cursorAt p (y # ys) (Suc i)) \<noteq> [])"
    proof (cases i)
      case 0
      with i show ?thesis by simp
    next
      case (Suc j)
      with i have "j \<le> length ys" "r (cursorAt p (y # ys) (Suc j)) \<noteq> []" by simp_all
      then show ?thesis by blast
    qed
  next
    assume "r (cursorAt p (y # ys) 0) \<noteq> [] \<or>
         (\<exists>i \<le> length ys. r (cursorAt p (y # ys) (Suc i)) \<noteq> [])"
    then show "\<exists>i \<le> length (y # ys). r (cursorAt p (y # ys) i) \<noteq> []"
    proof
      assume "r (cursorAt p (y # ys) 0) \<noteq> []"
      then show ?thesis by blast
    next
      assume "\<exists>i \<le> length ys. r (cursorAt p (y # ys) (Suc i)) \<noteq> []"
      then obtain i where "i \<le> length ys" "r (cursorAt p (y # ys) (Suc i)) \<noteq> []" by blast
      then have "Suc i \<le> length (y # ys)" by simp
      with \<open>r (cursorAt p (y # ys) (Suc i)) \<noteq> []\<close> show ?thesis by blast
    qed
  qed
  then show ?case by (simp only: rx_test_from.simps Cons.IH shift zero)
qed

lemma lowerAZ_word: "isLowerAZ (lowerAZ c) \<Longrightarrow> isWordChar c"
  by (auto simp: lowerAZ_def isWordChar_def split: if_splits)

lemma lowerAZ_id: "isLowerAZ c \<Longrightarrow> lowerAZ c = c"
  by (auto simp: lowerAZ_def isLowerAZ_def isUpperAZ_def)

lemma wordPattern_at:
  assumes w: "w \<noteq> []" "list_all isLowerAZ w" and i: "i \<le> length text"
  shows "(wordPattern w (cursorAt None text i) \<noteq> []) = wordAt w text i"
proof -
  let ?s = "drop i text"
  let ?n = "length w"
  from w(2) have low: "map lowerAZ w = w"
    by (induction w) (simp_all add: lowerAZ_id)
  show ?thesis
  proof (cases "?n \<le> length ?s \<and> map lowerAZ (take ?n ?s) = w")
    case False
    then have "rx_lit w (cursorAt None text i) = []"
      by (simp add: cursorAt_def rx_lit_result low)
    then have "wordPattern w (cursorAt None text i) = []"
      by (simp add: wordPattern_def rx_seq_def rx_b_def)
    moreover from False i have "\<not> wordAt w text i" by (auto simp: wordAt_def)
    ultimately show ?thesis by simp
  next
    case True
    then have len: "i + ?n \<le> length text" and m: "map lowerAZ (take ?n ?s) = w" using i by auto
    from w(1) len have ilt: "i < length text" by (cases w) auto
    have n0: "0 < ?n" using w(1) by simp
    have first: "isWordChar (text ! i)"
    proof -
      from m have "map lowerAZ (take ?n ?s) ! 0 = w ! 0" by simp
      have "take ?n ?s ! 0 = text ! i" using n0 ilt by simp
      moreover have "0 < length (take ?n ?s)" using n0 ilt by simp
      ultimately have "map lowerAZ (take ?n ?s) ! 0 = lowerAZ (text ! i)"
        by (simp only: nth_map)
      with \<open>map lowerAZ (take ?n ?s) ! 0 = w ! 0\<close>
      have "lowerAZ (text ! i) = w ! 0" by simp
      moreover from w have "isLowerAZ (w ! 0)" by (cases w) simp_all
      ultimately show ?thesis by (simp add: lowerAZ_word)
    qed
    have last: "isWordChar (text ! (i + (?n - 1)))"
    proof -
      have k: "?n - 1 < ?n" using n0 by simp
      from m have "map lowerAZ (take ?n ?s) ! (?n - 1) = w ! (?n - 1)" by simp
      moreover have "map lowerAZ (take ?n ?s) ! (?n - 1) = lowerAZ (text ! (i + (?n - 1)))"
      proof -
        have "take ?n ?s ! (?n - 1) = text ! (i + (?n - 1))" using k len by simp
        moreover have "?n - 1 < length (take ?n ?s)" using k len by simp
        ultimately show ?thesis by (simp only: nth_map)
      qed
      moreover from w k have "isLowerAZ (w ! (?n - 1))" by (simp add: list_all_length)
      ultimately show ?thesis by (simp add: lowerAZ_word)
    qed
    have lit: "rx_lit w (cursorAt None text i) = [(Some (text ! (i + (?n - 1))), drop (i + ?n) text)]"
      using True w(1) n0 len by (simp add: cursorAt_def rx_lit_result low add.commute)
    have b1: "atBoundary (cursorAt None text i) = (i = 0 \<or> \<not> isWordChar (text ! (i - 1)))"
      using ilt first by (auto simp: atBoundary_def cursorAt_def Cons_nth_drop_Suc [symmetric])
    have b2: "atBoundary (Some (text ! (i + (?n - 1))), drop (i + ?n) text) =
              (i + ?n = length text \<or> \<not> isWordChar (text ! (i + ?n)))"
    proof (cases "i + ?n = length text")
      case True
      then show ?thesis using last by (simp add: atBoundary_def)
    next
      case False
      with len have "i + ?n < length text" by simp
      then show ?thesis using last False
        by (simp add: atBoundary_def Cons_nth_drop_Suc [symmetric])
    qed
    have "(wordPattern w (cursorAt None text i) \<noteq> []) =
          (atBoundary (cursorAt None text i) \<and>
           atBoundary (Some (text ! (i + (?n - 1))), drop (i + ?n) text))"
      by (simp add: wordPattern_def rx_seq_def rx_b_def lit)
    also have "\<dots> = wordAt w text i"
      using len m by (simp only: b1 b2 wordAt_def simp_thms)
    finally show ?thesis .
  qed
qed

lemma word_test:
  assumes "w \<noteq> []" "list_all isLowerAZ w"
  shows "rx_test (wordPattern w) text = containsWord w text"
proof -
  have "rx_test (wordPattern w) text =
        (\<exists>i \<le> length text. wordPattern w (cursorAt None text i) \<noteq> [])"
    by (simp add: rx_test_def rx_test_from_ex)
  also have "\<dots> = (\<exists>i \<le> length text. wordAt w text i)"
    using wordPattern_at [OF assms] by blast
  also have "\<dots> = containsWord w text"
  proof -
    have "set [0..<Suc (length text)] = {i. i \<le> length text}" by auto
    then show ?thesis by (simp only: containsWord_def list_ex_iff Bex_def mem_Collect_eq)
  qed
  finally show ?thesis .
qed

lemma latte_lower: "list_all isLowerAZ ''latte''" by code_simp

lemma matcha_lower: "list_all isLowerAZ ''matcha''" by code_simp

text \<open>
  C8. \<^verbatim>\<open>normalizeAmbiguousItems\<close> rewrites an item named "matcha latte" (its name lower-cased
  and trimmed) to "latte" exactly when the text contains the word "latte" and does not
  contain the word "matcha"; it leaves every other item, and the order of the items,
  unchanged.
\<close>

theorem normalize_matcha_latte:
  "normalizeAmbiguousItems None text = [] \<and>
   normalizeAmbiguousItems (Some l) text =
     map (\<lambda>it. if keyOf it = ''matcha latte'' \<and>
                  containsWord ''latte'' text \<and> \<not> containsWord ''matcha'' text
               then it\<lparr>name := Some ''latte''\<rparr> else it) l"
proof -
  have a: "rx_test (rx_seq rx_b (rx_seq (rx_lit ''latte'') rx_b)) text = containsWord ''latte'' text"
    using word_test [of "''latte''" "text"] latte_lower by (simp add: wordPattern_def)
  have b: "rx_test (rx_seq rx_b (rx_seq (rx_lit ''matcha'') rx_b)) text = containsWord ''matcha'' text"
    using word_test [of "''matcha''" "text"] matcha_lower by (simp add: wordPattern_def)
  show ?thesis
    unfolding normalizeAmbiguousItems_def Let_def a b by simp
qed

lemma normalize_example_key: "keyOf \<lparr>name = Some ''Matcha Latte'', qty = JNum 2\<rparr> = ''matcha latte''"
  by code_simp

lemma normalize_example_words:
  "containsWord ''latte'' ''sold a latte'' \<and> \<not> containsWord ''matcha'' ''sold a latte''"
  by code_simp

theorem normalize_matcha_latte_witness:
  "normalizeAmbiguousItems (Some [\<lparr>name = Some ''Matcha Latte'', qty = JNum 2\<rparr>]) ''sold a latte'' =
     [\<lparr>name = Some ''latte'', qty = JNum 2\<rparr>]"
  using normalize_matcha_latte [of "''sold a latte''" "[\<lparr>name = Some ''Matcha Latte'', qty = JNum 2\<rparr>]"]
  by (simp add: normalize_example_key normalize_example_words)

end
